theory Spec2Isabelle
  imports Complex_Main "HOL-Library.Char_ord" "HOL-Library.List_Lexorder"
begin

section \<open>Symmetry-blocked matrices\<close>

text \<open>
  The solver's matrices are blocked by irreducible representation: an entry is addressed by
  the irrep \<open>h\<close> and the local row and column \<open>i\<close>, \<open>j\<close>. Every matrix of one calculation is
  made by the same factory, so the number of irreps and the dimension of each block are kept
  once, in the solver's state, and a matrix is the table of its entries. The source's
  \<open>double\<close> is read as a real number: rounding is not part of this development.
\<close>

type_synonym Matrix = "nat \<Rightarrow> nat \<Rightarrow> nat \<Rightarrow> real"

text \<open>
  Modelled from the spec: the dense-matrix provider (class Matrix, outside the two source
  files), which the spec lists as supporting copy, add, subtract, scale, element get/set by
  irrep block and local indices, similarity transform, Frobenius dot product and RMS norm.
\<close>

definition Matrix_get :: "Matrix \<Rightarrow> nat \<Rightarrow> nat \<Rightarrow> nat \<Rightarrow> real" where
  "Matrix_get M h i j = M h i j"

definition Matrix_set :: "Matrix \<Rightarrow> nat \<Rightarrow> nat \<Rightarrow> nat \<Rightarrow> real \<Rightarrow> Matrix" where
  "Matrix_set M h i j v = (\<lambda>h' i' j'. if h' = h \<and> i' = i \<and> j' = j then v else M h' i' j')"

definition Matrix_copy :: "Matrix \<Rightarrow> Matrix \<Rightarrow> Matrix" where
  \<comment> \<open>\<open>dst->copy(src)\<close>: the new contents of \<open>dst\<close>\<close>
  "Matrix_copy dst src = src"

definition Matrix_add :: "Matrix \<Rightarrow> Matrix \<Rightarrow> Matrix" where
  "Matrix_add A B = (\<lambda>h i j. A h i j + B h i j)"

definition Matrix_subtract :: "Matrix \<Rightarrow> Matrix \<Rightarrow> Matrix" where
  "Matrix_subtract A B = (\<lambda>h i j. A h i j - B h i j)"

definition Matrix_scale :: "Matrix \<Rightarrow> real \<Rightarrow> Matrix" where
  "Matrix_scale A a = (\<lambda>h i j. a * A h i j)"

definition Matrix_transform :: "(nat \<Rightarrow> nat) \<Rightarrow> Matrix \<Rightarrow> Matrix \<Rightarrow> Matrix" where
  \<comment> \<open>\<open>transform(F, C)\<close>: the similarity transform \<open>C\<^sup>T F C\<close>, block by block\<close>
  "Matrix_transform dimpi F C =
     (\<lambda>h i j. sum_list (map (\<lambda>k. sum_list (map (\<lambda>l. C h k i * F h k l * C h l j)
                                                 [0..<dimpi h])) [0..<dimpi h]))"

definition Matrix_vector_dot :: "nat \<Rightarrow> (nat \<Rightarrow> nat) \<Rightarrow> Matrix \<Rightarrow> Matrix \<Rightarrow> real" where
  \<comment> \<open>the Frobenius dot product over all entries of all irrep blocks\<close>
  "Matrix_vector_dot nirr dimpi A B =
     fold (\<lambda>h acc. fold (\<lambda>i acc. fold (\<lambda>j acc. acc + A h i j * B h i j)
                                        [0..<dimpi h] acc) [0..<dimpi h] acc) [0..<nirr] 0"

definition Matrix_terms :: "nat \<Rightarrow> (nat \<Rightarrow> nat) \<Rightarrow> nat" where
  "Matrix_terms nirr dimpi = fold (\<lambda>h t. t + dimpi h * dimpi h) [0..<nirr] 0"

definition Matrix_rms :: "nat \<Rightarrow> (nat \<Rightarrow> nat) \<Rightarrow> Matrix \<Rightarrow> real" where
  \<comment> \<open>the root of the mean of the squared entries\<close>
  "Matrix_rms nirr dimpi A =
     sqrt (Matrix_vector_dot nirr dimpi A A / real (Matrix_terms nirr dimpi))"

section \<open>The ROHF solver state\<close>

text \<open>
  The fields of class ROHF (and of its base HF) that the functions below read or write.
  \<open>Cb_\<close> and \<open>epsilon_b_\<close> are the same objects as \<open>Ca_\<close> and \<open>epsilon_a_\<close> in the source
  (\<open>common_init\<close>), so the state has one coefficient matrix.
\<close>

record ROHF =
  nirrep :: nat
  nsopi :: "nat \<Rightarrow> nat"
  nmopi :: "nat \<Rightarrow> nat"
  doccpi :: "nat \<Rightarrow> nat"
  soccpi :: "nat \<Rightarrow> nat"
  H :: Matrix
  Fa :: Matrix
  Fb :: Matrix
  Feff :: Matrix
  Ca :: Matrix
  Da :: Matrix
  Db :: Matrix
  Ga :: Matrix
  Gb :: Matrix
  Dt :: Matrix
  Dt_old :: Matrix
  moFa :: Matrix
  moFb :: Matrix
  E :: real
  Eold :: real
  nuclearrep :: real
  energy_threshold :: real
  density_threshold :: real
  Drms :: real

subsection \<open>save_density_and_energy\<close>

definition save_density_and_energy :: "ROHF \<Rightarrow> ROHF" where
  "save_density_and_energy s =
     (let s1 = s\<lparr>Dt_old := Matrix_copy (Dt_old s) (Dt s)\<rparr>;
          s2 = s1\<lparr>Eold := E s1\<rparr>
      in s2)"

subsection \<open>test_convergency\<close>

definition test_convergency :: "ROHF \<Rightarrow> bool \<times> ROHF" where
  "test_convergency s =
     (let ediff = E s - Eold s;
          D_rms = Matrix_copy (\<lambda>h i j. 0) (Dt s);
          D_rms = Matrix_subtract D_rms (Dt_old s);
          s1 = s\<lparr>Drms := Matrix_rms (nirrep s) (nsopi s) D_rms\<rparr>
      in if \<bar>ediff\<bar> < energy_threshold s1 \<and> Drms s1 < density_threshold s1
         then (True, s1) else (False, s1))"

subsection \<open>form_F\<close>

definition form_F_open_closed :: "Matrix \<Rightarrow> nat \<Rightarrow> nat \<Rightarrow> nat \<Rightarrow> Matrix \<Rightarrow> Matrix" where
  \<comment> \<open>the body of the loop over the closed orbitals \<open>j\<close>, for the open orbital \<open>i\<close>\<close>
  "form_F_open_closed moFb' h i j F =
     (let val = Matrix_get moFb' h i j;
          F1 = Matrix_set F h i j val;
          F2 = Matrix_set F1 h j i val
      in F2)"

definition form_F_open_virtual :: "Matrix \<Rightarrow> nat \<Rightarrow> nat \<Rightarrow> nat \<Rightarrow> Matrix \<Rightarrow> Matrix" where
  \<comment> \<open>the body of the loop over the virtual orbitals \<open>j\<close>, for the open orbital \<open>i\<close>\<close>
  "form_F_open_virtual moFa' h i j F =
     (let val = Matrix_get moFa' h i j;
          F1 = Matrix_set F h i j val;
          F2 = Matrix_set F1 h j i val
      in F2)"

definition form_F_open :: "ROHF \<Rightarrow> nat \<Rightarrow> nat \<Rightarrow> Matrix \<Rightarrow> Matrix" where
  \<comment> \<open>the body of the loop over the open orbitals \<open>i\<close> of irrep \<open>h\<close>\<close>
  "form_F_open s h i F =
     (let F1 = fold (form_F_open_closed (moFb s) h i) [0..<doccpi s h] F;
          F2 = fold (form_F_open_virtual (moFa s) h i)
                 [doccpi s h + soccpi s h..<nmopi s h] F1
      in F2)"

definition form_F_irrep :: "ROHF \<Rightarrow> nat \<Rightarrow> Matrix \<Rightarrow> Matrix" where
  "form_F_irrep s h F = fold (form_F_open s h) [doccpi s h..<doccpi s h + soccpi s h] F"

definition form_F :: "ROHF \<Rightarrow> ROHF" where
  "form_F s =
     (let s1 = s\<lparr>Fa := Matrix_copy (Fa s) (H s)\<rparr>;
          s2 = s1\<lparr>Fb := Matrix_copy (Fb s1) (H s1)\<rparr>;
          s3 = s2\<lparr>Fa := Matrix_add (Fa s2) (Ga s2)\<rparr>;
          s4 = s3\<lparr>Fb := Matrix_add (Fb s3) (Gb s3)\<rparr>;
          s5 = s4\<lparr>moFa := Matrix_transform (nsopi s4) (Fa s4) (Ca s4)\<rparr>;
          s6 = s5\<lparr>moFb := Matrix_transform (nsopi s5) (Fb s5) (Ca s5)\<rparr>;
          s7 = s6\<lparr>Feff := Matrix_copy (Feff s6) (moFa s6)\<rparr>;
          s8 = s7\<lparr>Feff := Matrix_add (Feff s7) (moFb s7)\<rparr>;
          s9 = s8\<lparr>Feff := Matrix_scale (Feff s8) 0.5\<rparr>
      in s9\<lparr>Feff := fold (form_F_irrep s9) [0..<nirrep s9] (Feff s9)\<rparr>)"

subsection \<open>form_D\<close>

definition form_D_accumulate :: "Matrix \<Rightarrow> nat \<Rightarrow> nat \<Rightarrow> nat \<Rightarrow> nat \<Rightarrow> nat \<Rightarrow> real \<Rightarrow> real" where
  \<comment> \<open>\<open>for (m = lo; m < hi; ++m) val += C(h,i,m) * C(h,j,m)\<close>\<close>
  "form_D_accumulate C h i j lo hi val =
     fold (\<lambda>m val. val + Matrix_get C h i m * Matrix_get C h j m) [lo..<hi] val"

definition form_D_entry :: "nat \<Rightarrow> nat \<Rightarrow> nat \<Rightarrow> ROHF \<Rightarrow> ROHF" where
  \<comment> \<open>the body of the innermost loop over \<open>j\<close>\<close>
  "form_D_entry h i j s =
     (let val = 0;
          val = form_D_accumulate (Ca s) h i j 0 (doccpi s h) val;
          s1 = s\<lparr>Db := Matrix_set (Db s) h i j val\<rparr>;
          val = form_D_accumulate (Ca s1) h i j (doccpi s1 h) (doccpi s1 h + soccpi s1 h) val;
          s2 = s1\<lparr>Da := Matrix_set (Da s1) h i j val\<rparr>
      in s2)"

definition form_D_row :: "nat \<Rightarrow> nat \<Rightarrow> ROHF \<Rightarrow> ROHF" where
  "form_D_row h i s = fold (form_D_entry h i) [0..<nsopi s h] s"

definition form_D_irrep :: "nat \<Rightarrow> ROHF \<Rightarrow> ROHF" where
  "form_D_irrep h s = fold (form_D_row h) [0..<nsopi s h] s"

definition form_D :: "ROHF \<Rightarrow> ROHF" where
  "form_D s =
     (let s1 = fold form_D_irrep [0..<nirrep s] s;
          s2 = s1\<lparr>Dt := Matrix_copy (Dt s1) (Da s1)\<rparr>;
          s3 = s2\<lparr>Dt := Matrix_copy (Dt s2) (Db s2)\<rparr>
      in s3)"

subsection \<open>compute_E\<close>

definition compute_E :: "ROHF \<Rightarrow> real" where
  "compute_E s =
     (let DH = Matrix_vector_dot (nirrep s) (nsopi s) (Da s) (H s);
          DH = DH + Matrix_vector_dot (nirrep s) (nsopi s) (Db s) (H s);
          DFa = Matrix_vector_dot (nirrep s) (nsopi s) (Da s) (Fa s);
          DFb = Matrix_vector_dot (nirrep s) (nsopi s) (Db s) (Fb s);
          Eelec = 0.5 * (DH + DFa + DFb);
          Etotal = nuclearrep s + Eelec
      in Etotal)"

section \<open>ECP shells and basis sets\<close>

subsection \<open>Associative containers\<close>

text \<open>
  A \<open>std::map\<close> is kept as the list of its entries in the order of iteration, which is the
  order of the keys; for \<open>std::string\<close> keys that is the bytewise lexicographic order. The
  subscript operator on a missing key inserts a value-initialised entry and returns it;
  such an entry changes the result of no later lookup, so a read is the lookup with that
  default and leaves the list as it is.
\<close>

type_synonym ('k, 'v) std_map = "('k \<times> 'v) list"

fun map_assign :: "'k::linorder \<Rightarrow> 'v \<Rightarrow> ('k, 'v) std_map \<Rightarrow> ('k, 'v) std_map" where
  \<comment> \<open>\<open>m[k] = v\<close>\<close>
  "map_assign k v [] = [(k, v)]"
| "map_assign k v ((k', v') # m) =
     (if k < k' then (k, v) # (k', v') # m
      else if k = k' then (k, v) # m
      else (k', v') # map_assign k v m)"

definition map_at :: "'v \<Rightarrow> ('k, 'v) std_map \<Rightarrow> 'k \<Rightarrow> 'v" where
  \<comment> \<open>the value of \<open>m[k]\<close>, with the value-initialised default \<open>d\<close>\<close>
  "map_at d m k = (case map_of m k of Some v \<Rightarrow> v | None \<Rightarrow> d)"

definition map_assign2 ::
  "'a::linorder \<Rightarrow> 'b::linorder \<Rightarrow> 'v \<Rightarrow> ('a, ('b, 'v) std_map) std_map
     \<Rightarrow> ('a, ('b, 'v) std_map) std_map" where
  \<comment> \<open>\<open>m[a][b] = v\<close>\<close>
  "map_assign2 a b v m = map_assign a (map_assign b v (map_at [] m a)) m"

definition map_at2 :: "'v \<Rightarrow> ('a, ('b, 'v) std_map) std_map \<Rightarrow> 'a \<Rightarrow> 'b \<Rightarrow> 'v" where
  \<comment> \<open>the value of \<open>m[a][b]\<close>\<close>
  "map_at2 d m a b = map_at d (map_at [] m a) b"

definition map_ok :: "('k::linorder, 'v) std_map \<Rightarrow> bool" where
  \<comment> \<open>the entries are in strictly increasing key order, as those of a \<open>std::map\<close> are\<close>
  "map_ok m \<longleftrightarrow> sorted_wrt (<) (map fst m)"

subsection \<open>Shell descriptors\<close>

type_synonym Vector3 = "real \<times> real \<times> real"

datatype GaussianType = Cartesian | Pure

datatype error = PSIEXCEPTION string

text \<open>
  The fields of ECPShellInfo: those of its base class ShellInfo, and \<open>n_\<close> and \<open>sub_l_\<close>.
  The field names carry the prefix \<open>si\<close>.
\<close>

record ECPShellInfo =
  si_l :: int
  si_puream :: GaussianType
  si_exp :: "real list"
  si_coef :: "real list"
  si_erd_coef :: "real list"
  si_original_coef :: "real list"
  si_nc :: int
  si_center :: Vector3
  si_start :: int
  si_ncartesian :: nat
  si_nfunction :: nat
  si_n :: "int list"
  si_sub_l :: "int list"

text \<open>
  Modelled from the spec: the base class ShellInfo, declared outside the source files. Its
  constructor stores the angular momentum, the coefficients, the exponents, the type, the
  atom index, the center and the start index of a descriptor, whose number of primitives is
  the common length of its sequences. What else the constructor derives (the normalised
  coefficient vectors and the numbers of Cartesian and of basis functions) is taken as a
  parameter.
\<close>

record ShellInfo_base =
  normalized_coef :: "int \<Rightarrow> real list \<Rightarrow> real list \<Rightarrow> real list"
  erd_normalized_coef :: "int \<Rightarrow> real list \<Rightarrow> real list \<Rightarrow> real list"
  INT_NCART :: "int \<Rightarrow> nat"
  INT_NFUNC :: "GaussianType \<Rightarrow> int \<Rightarrow> nat"

definition si_nprimitive :: "ECPShellInfo \<Rightarrow> nat" where
  "si_nprimitive shell = length (si_exp shell)"

definition is_pure :: "ECPShellInfo \<Rightarrow> bool" where
  "is_pure shell \<longleftrightarrow> si_puream shell = Pure"

definition ECPShellInfo_ctor ::
  "ShellInfo_base \<Rightarrow> int \<Rightarrow> real list \<Rightarrow> real list \<Rightarrow> int list \<Rightarrow> int list \<Rightarrow> int \<Rightarrow> Vector3
     \<Rightarrow> int \<Rightarrow> ECPShellInfo" where
  \<comment> \<open>\<open>ShellInfo(am, c, e, Cartesian, nc, center, start), n_(n), sub_l_(sub_l)\<close>\<close>
  "ECPShellInfo_ctor base am c e n sub_l nc center start =
     \<lparr>si_l = am, si_puream = Cartesian, si_exp = e,
      si_coef = normalized_coef base am c e,
      si_erd_coef = erd_normalized_coef base am c e,
      si_original_coef = c, si_nc = nc, si_center = center, si_start = start,
      si_ncartesian = INT_NCART base am, si_nfunction = INT_NFUNC base Cartesian am,
      si_n = n, si_sub_l = sub_l\<rparr>"

definition ECPShellInfo_eq :: "ECPShellInfo \<Rightarrow> ECPShellInfo \<Rightarrow> bool" where
  \<comment> \<open>\<open>operator==\<close>, with \<open>this\<close> on the left and \<open>RHS\<close> on the right\<close>
  "ECPShellInfo_eq this RHS \<longleftrightarrow>
     si_l this = si_l RHS \<and>
     si_puream this = si_puream RHS \<and>
     si_exp this = si_exp RHS \<and>
     si_original_coef this = si_erd_coef RHS \<and>
     si_n this = si_n RHS \<and>
     si_sub_l this = si_sub_l RHS \<and>
     si_nc this = si_nc RHS \<and>
     si_center this = si_center RHS \<and>
     si_start this = si_start RHS \<and>
     si_ncartesian this = si_ncartesian RHS \<and>
     si_nfunction this = si_nfunction RHS"

subsection \<open>Shells of an assembled basis set\<close>

text \<open>
  A GaussianECPShell does not own its primitives: its constructor receives pointers into
  the arrays of unique primitives of the basis set. A pointer is kept as the index of the
  array element it points to, and a shell is read together with the arrays it points into.
  The field names carry the prefix \<open>gs\<close>.

  Modelled from the spec: the base class GaussianShell, declared outside the source files,
  whose constructor stores its arguments: a shell record references, and does not copy, its
  range of the unique primitives.
\<close>

record GaussianECPShell =
  gs_l :: int
  gs_puream :: GaussianType
  gs_nprimitive :: nat
  gs_original_coef :: nat
  gs_exp :: nat
  gs_n :: nat
  gs_sub_l :: nat
  gs_nc :: int
  gs_center :: nat
  gs_start :: nat

definition GaussianECPShell_ctor ::
  "int \<Rightarrow> nat \<Rightarrow> nat \<Rightarrow> nat \<Rightarrow> nat \<Rightarrow> nat \<Rightarrow> int \<Rightarrow> nat \<Rightarrow> nat \<Rightarrow> GaussianECPShell" where
  \<comment> \<open>\<open>GaussianShell(am, nprimitive, oc, oc, oc, e, Cartesian, nc, center, start),
      n_(n), sub_l_(subl)\<close>\<close>
  "GaussianECPShell_ctor am nprim oc e n subl nc center start =
     \<lparr>gs_l = am, gs_puream = Cartesian, gs_nprimitive = nprim, gs_original_coef = oc,
      gs_exp = e, gs_n = n, gs_sub_l = subl, gs_nc = nc, gs_center = center,
      gs_start = start\<rparr>"

text \<open>
  The members of ECPBasisSet (and of its base BasisSet) that the constructor writes. The
  index tables are filled at \<open>shell_count\<close>, \<open>ao_count\<close> and \<open>bf_count\<close>, and the coordinates at
  \<open>xyz_ptr\<close>, which all count up from the start of their array by one per write: each table
  is the list of the values written so far.
\<close>

record ECPBasisSet =
  name :: string
  key :: string
  target :: string
  n_uprimitive :: nat
  uexponents :: "real list"
  ucoefficients :: "real list"
  uoriginal_coefficients :: "real list"
  uerd_coefficients :: "real list"
  uns :: "int list"
  usubls :: "int list"
  n_shells :: nat
  nprimitive :: nat
  nao :: nat
  nbf :: nat
  shell_first_ao :: "nat list"
  shell_first_basis_function :: "nat list"
  shells :: "GaussianECPShell list"
  ao_to_shell :: "nat list"
  function_to_shell :: "nat list"
  function_center :: "nat list"
  shell_center :: "nat list"
  center_to_nshell :: "nat list"
  center_to_shell :: "nat list"
  xyz :: "real list"
  puream :: bool
  max_am :: int
  max_nprimitive :: nat

subsection \<open>GaussianECPShell::evaluate\<close>

text \<open>
  The source's doubles are read as real numbers. One result of \<open>pow\<close> is no real number
  whatever the precision: \<open>pow(0.0, n)\<close> with a negative \<open>n\<close> is infinite. It is the value
  \<open>None\<close>; a product or a sum with it as an operand is infinite or not a number, so \<open>None\<close>
  too. Everywhere else \<open>pow(r, n)\<close> with an integer \<open>n\<close> is the integer power.
\<close>

definition pow :: "real \<Rightarrow> int \<Rightarrow> real option" where
  "pow x n = (if x = 0 \<and> n < 0 then None else Some (x powi n))"

definition evaluate :: "ECPBasisSet \<Rightarrow> GaussianECPShell \<Rightarrow> real \<Rightarrow> int \<Rightarrow> real option" where
  \<comment> \<open>the shell's pointers are read in the arrays of the basis set \<open>bs\<close>\<close>
  "evaluate bs sh r l =
     (let val = Some 0;
          r2 = r * r
      in fold (\<lambda>i val.
                 if usubls bs ! (gs_sub_l sh + i) = l
                 then (case (val, pow r (uns bs ! (gs_n sh + i))) of
                         (Some v, Some p) \<Rightarrow>
                           Some (v + p * (uoriginal_coefficients bs ! (gs_original_coef sh + i))
                                       * exp (- (uexponents bs ! (gs_exp sh + i)) * r2))
                       | _ \<Rightarrow> None)
                 else val)
              [0..<gs_nprimitive sh] val)"

subsection \<open>The molecule\<close>

text \<open>
  Modelled from the spec: the molecule provider (class Molecule and its atom entries,
  outside the source files), which the spec lists as exposing per-atom basis-name lookup,
  per-atom label lookup, per-atom nuclear-charge get and set, the atom count, the atoms'
  Cartesian coordinates, and the trigger that recomputes geometry and symmetry. An atom
  keeps a basis name and a shell hash per role; \<open>basis_on_atom\<close> reads the name under the
  role \<open>BASIS\<close>. The molecule is shared and mutated in place, so each function returns the
  new molecule, and the mutating calls a molecule has received are kept in order in
  \<open>calls\<close>. What \<open>update_geometry\<close> recomputes is outside this development: the model
  records the call.
\<close>

datatype mol_call =
  Set_basis_all_atoms string string
  | Set_shell_by_label string string string
  | Update_geometry
  | Set_nuclear_charge nat int

record CoordEntry =
  label :: string
  Z :: int
  basissets :: "string \<Rightarrow> string"
  shellsets :: "string \<Rightarrow> string"
  coordinates :: Vector3

record Molecule =
  atoms :: "CoordEntry list"
  calls :: "mol_call list"

definition natom :: "Molecule \<Rightarrow> nat" where
  "natom mol = length (atoms mol)"

definition atom_entry :: "Molecule \<Rightarrow> nat \<Rightarrow> CoordEntry" where
  "atom_entry mol n = atoms mol ! n"

definition basisset :: "CoordEntry \<Rightarrow> string \<Rightarrow> string" where
  "basisset atom role = basissets atom role"

definition basis_on_atom :: "Molecule \<Rightarrow> nat \<Rightarrow> string" where
  "basis_on_atom mol n = basisset (atom_entry mol n) ''BASIS''"

definition set_basis_all_atoms :: "string \<Rightarrow> string \<Rightarrow> Molecule \<Rightarrow> Molecule" where
  "set_basis_all_atoms nm role mol =
     mol\<lparr>atoms := map (\<lambda>a. a\<lparr>basissets := (basissets a)(role := nm)\<rparr>) (atoms mol),
         calls := calls mol @ [Set_basis_all_atoms nm role]\<rparr>"

definition set_shell_by_label :: "string \<Rightarrow> string \<Rightarrow> string \<Rightarrow> Molecule \<Rightarrow> Molecule" where
  "set_shell_by_label lbl hash role mol =
     mol\<lparr>atoms := map (\<lambda>a. if label a = lbl then a\<lparr>shellsets := (shellsets a)(role := hash)\<rparr>
                             else a) (atoms mol),
         calls := calls mol @ [Set_shell_by_label lbl hash role]\<rparr>"

definition update_geometry :: "Molecule \<Rightarrow> Molecule" where
  "update_geometry mol = mol\<lparr>calls := calls mol @ [Update_geometry]\<rparr>"

definition set_nuclear_charge :: "nat \<Rightarrow> int \<Rightarrow> Molecule \<Rightarrow> Molecule" where
  "set_nuclear_charge n z mol =
     mol\<lparr>atoms := (atoms mol)[n := (atoms mol ! n)\<lparr>Z := z\<rparr>],
         calls := calls mol @ [Set_nuclear_charge n z]\<rparr>"

subsection \<open>ECPBasisSet::ECPBasisSet\<close>

type_synonym shell_map = "(string, (string, ECPShellInfo list) std_map) std_map"

text \<open>The local vectors and maps of the first loop, over the unique primitives.\<close>

record unique_primitives =
  uexps :: "real list"
  ucoefs :: "real list"
  uoriginal_coefs :: "real list"
  uerd_coefs :: "real list"
  uns_v :: "int list"
  usubls_v :: "int list"
  n_uprim :: nat
  primitive_start :: "(string, (string, nat) std_map) std_map"
  primitive_end :: "(string, (string, nat) std_map) std_map"

definition store_primitive :: "ECPShellInfo \<Rightarrow> nat \<Rightarrow> unique_primitives \<Rightarrow> unique_primitives" where
  "store_primitive shell prim u =
     u\<lparr>uexps := uexps u @ [si_exp shell ! prim],
       ucoefs := ucoefs u @ [si_coef shell ! prim],
       uoriginal_coefs := uoriginal_coefs u @ [si_original_coef shell ! prim],
       uerd_coefs := uerd_coefs u @ [0],
       uns_v := uns_v u @ [si_n shell ! prim],
       usubls_v := usubls_v u @ [si_sub_l shell ! prim],
       n_uprim := n_uprim u + 1\<rparr>"

definition store_shell :: "ECPShellInfo \<Rightarrow> unique_primitives \<Rightarrow> unique_primitives" where
  "store_shell shell u = fold (store_primitive shell) [0..<si_nprimitive shell] u"

definition store_label ::
  "string \<Rightarrow> string \<times> ECPShellInfo list \<Rightarrow> unique_primitives \<Rightarrow> unique_primitives" where
  "store_label basis entry u =
     (let lbl = fst entry;
          shs = snd entry;
          u1 = u\<lparr>primitive_start := map_assign2 basis lbl (n_uprim u) (primitive_start u)\<rparr>;
          u2 = fold store_shell shs u1
      in u2\<lparr>primitive_end := map_assign2 basis lbl (n_uprim u2) (primitive_end u2)\<rparr>)"

definition store_basis ::
  "string \<times> (string, ECPShellInfo list) std_map \<Rightarrow> unique_primitives \<Rightarrow> unique_primitives" where
  "store_basis entry u = fold (store_label (fst entry)) (snd entry) u"

definition store_unique_primitives :: "shell_map \<Rightarrow> unique_primitives" where
  "store_unique_primitives shell_map =
     fold store_basis shell_map
       \<lparr>uexps = [], ucoefs = [], uoriginal_coefs = [], uerd_coefs = [], uns_v = [],
        usubls_v = [], n_uprim = 0, primitive_start = [], primitive_end = []\<rparr>"

text \<open>The second loop: counting basis functions, shells and primitives.\<close>

definition count_shell :: "ECPShellInfo \<Rightarrow> ECPBasisSet \<Rightarrow> ECPBasisSet" where
  "count_shell shell bs =
     (let nprim = si_nprimitive shell
      in bs\<lparr>nprimitive := nprimitive bs + nprim,
            n_shells := n_shells bs + 1,
            nao := nao bs + si_ncartesian shell,
            nbf := nbf bs + si_nfunction shell\<rparr>)"

definition count_atom :: "string \<Rightarrow> Molecule \<Rightarrow> shell_map \<Rightarrow> nat \<Rightarrow> ECPBasisSet \<Rightarrow> ECPBasisSet" where
  "count_atom basistype mol shell_map n bs =
     (let atom = atom_entry mol n;
          basis = basisset atom basistype;
          lbl = label atom;
          shs = map_at2 [] shell_map basis lbl
      in fold count_shell shs bs)"

text \<open>
  The third loop: pointing every atom's shells to the unique data. Besides the basis set
  under construction it carries the local counters.
\<close>

record assembly =
  bs :: ECPBasisSet
  shell_count :: nat
  ao_count :: nat
  bf_count :: nat
  xyz_ptr :: nat
  atom_nprim :: nat

definition assemble_shell :: "nat \<Rightarrow> nat \<Rightarrow> ECPShellInfo \<Rightarrow> assembly \<Rightarrow> assembly" where
  \<comment> \<open>the body of the loop over the shells of atom \<open>n\<close>, whose primitives start at \<open>ustart\<close>\<close>
  "assemble_shell n ustart thisshell a =
     (let b = bs a;
          b = b\<lparr>shell_first_ao := shell_first_ao b @ [ao_count a]\<rparr>;
          b = b\<lparr>shell_first_basis_function := shell_first_basis_function b @ [bf_count a]\<rparr>;
          shell_nprim = si_nprimitive thisshell;
          am = si_l thisshell;
          b = b\<lparr>max_nprimitive := (if shell_nprim > max_nprimitive b then shell_nprim
                                     else max_nprimitive b)\<rparr>;
          b = b\<lparr>max_am := (if max_am b > am then max_am b else am)\<rparr>;
          b = b\<lparr>shell_center := shell_center b @ [n]\<rparr>;
          b = (if is_pure thisshell then b\<lparr>puream := True\<rparr> else b);
          b = b\<lparr>shells := shells b @
                 [GaussianECPShell_ctor am shell_nprim (ustart + atom_nprim a)
                    (ustart + atom_nprim a) (ustart + atom_nprim a) (ustart + atom_nprim a)
                    (int n) (xyz_ptr a) (bf_count a)]\<rparr>;
          b = b\<lparr>function_to_shell := function_to_shell b
                   @ replicate (si_nfunction thisshell) (shell_count a),
                function_center := function_center b @ replicate (si_nfunction thisshell) n\<rparr>;
          b = b\<lparr>ao_to_shell := ao_to_shell b
                   @ replicate (si_ncartesian thisshell) (shell_count a)\<rparr>
      in a\<lparr>bs := b,
            bf_count := bf_count a + si_nfunction thisshell,
            ao_count := ao_count a + si_ncartesian thisshell,
            atom_nprim := atom_nprim a + shell_nprim,
            shell_count := shell_count a + 1\<rparr>)"

definition assemble_atom ::
  "string \<Rightarrow> Molecule \<Rightarrow> shell_map \<Rightarrow> unique_primitives \<Rightarrow> nat \<Rightarrow> assembly
     \<Rightarrow> error + assembly" where
  \<comment> \<open>the body of the loop over the atoms\<close>
  "assemble_atom basistype mol shell_map u n a =
     (let atom = atom_entry mol n;
          basis = basisset atom basistype;
          lbl = label atom;
          shs = map_at2 [] shell_map basis lbl;
          ustart = map_at2 0 (primitive_start u) basis lbl;
          uend = map_at2 0 (primitive_end u) basis lbl;
          nshells = length shs;
          a = a\<lparr>bs := (bs a)\<lparr>center_to_nshell := center_to_nshell (bs a) @ [nshells],
                              center_to_shell := center_to_shell (bs a) @ [shell_count a]\<rparr>\<rparr>;
          a = a\<lparr>atom_nprim := 0\<rparr>;
          a = fold (\<lambda>i. assemble_shell n ustart (shs ! i)) [0..<nshells] a;
          (x, y, z) = coordinates atom;
          a = a\<lparr>bs := (bs a)\<lparr>xyz := xyz (bs a) @ [x, y, z]\<rparr>, xyz_ptr := xyz_ptr a + 3\<rparr>
      in if int (atom_nprim a) \<noteq> int uend - int ustart
         then Inl (PSIEXCEPTION ''Problem with nprimitive in basis set construction!'')
         else Inr a)"

fun assemble_atoms ::
  "string \<Rightarrow> Molecule \<Rightarrow> shell_map \<Rightarrow> unique_primitives \<Rightarrow> nat list \<Rightarrow> assembly
     \<Rightarrow> error + assembly" where
  "assemble_atoms basistype mol shell_map u [] a = Inr a"
| "assemble_atoms basistype mol shell_map u (n # ns) a =
     (case assemble_atom basistype mol shell_map u n a of
        Inl e \<Rightarrow> Inl e
      | Inr a' \<Rightarrow> assemble_atoms basistype mol shell_map u ns a')"

definition ECPBasisSet_ctor :: "string \<Rightarrow> Molecule \<Rightarrow> shell_map \<Rightarrow> error + ECPBasisSet" where
  "ECPBasisSet_ctor basistype mol shell_map =
     (let u = store_unique_primitives shell_map;
          b = \<lparr>name = basistype, key = [], target = [],
               n_uprimitive = n_uprim u,
               uexponents = [], ucoefficients = [], uoriginal_coefficients = [],
               uerd_coefficients = [], uns = [], usubls = [],
               n_shells = 0, nprimitive = 0, nao = 0, nbf = 0,
               shell_first_ao = [], shell_first_basis_function = [], shells = [],
               ao_to_shell = [], function_to_shell = [], function_center = [],
               shell_center = [], center_to_nshell = [], center_to_shell = [], xyz = [],
               puream = False, max_am = 0, max_nprimitive = 0\<rparr>;
          b = fold (count_atom basistype mol shell_map) [0..<natom mol] b;
          b = b\<lparr>uexponents := map (\<lambda>i. uexps u ! i) [0..<n_uprimitive b],
                ucoefficients := map (\<lambda>i. ucoefs u ! i) [0..<n_uprimitive b],
                uoriginal_coefficients := map (\<lambda>i. uoriginal_coefs u ! i) [0..<n_uprimitive b],
                uerd_coefficients := map (\<lambda>i. uerd_coefs u ! i) [0..<n_uprimitive b],
                uns := map (\<lambda>i. uns_v u ! i) [0..<n_uprimitive b],
                usubls := map (\<lambda>i. usubls_v u ! i) [0..<n_uprimitive b]\<rparr>
      in case assemble_atoms basistype mol shell_map u [0..<natom mol]
                \<lparr>bs = b, shell_count = 0, ao_count = 0, bf_count = 0, xyz_ptr = 0,
                 atom_nprim = 0\<rparr> of
           Inl e \<Rightarrow> Inl e
         | Inr a \<Rightarrow> Inr (bs a))"

subsection \<open>ECPBasisSet::construct_ecp_from_pydict\<close>

text \<open>
  The structured input, as the casts of the source read it: the entries \<open>key\<close>, \<open>name\<close>,
  \<open>blend\<close> and \<open>message\<close>, and under \<open>ecp_shell_map\<close> one record per atom kind, made of the
  atom label, a hash, the number of core electrons and the shells; a shell is its angular
  momentum followed by its primitives, each an exponent, a coefficient and a radial power.
  An input on which a cast fails is outside this type.
\<close>

type_synonym py_primitive = "real \<times> real \<times> int"

type_synonym py_shell = "int \<times> py_primitive list"

record py_atominfo =
  atomlabel :: string
  hash :: string
  ncore :: int
  atomshells :: "py_shell list"

record py_dict =
  py_key :: string
  py_name :: string
  py_blend :: string
  py_message :: string
  ecp_shell_map :: "py_atominfo list"

record primitive_vectors =
  coefficients :: "real list"
  exponents :: "real list"
  ns :: "int list"
  sub_ls :: "int list"

definition read_primitive :: "int \<Rightarrow> py_primitive \<Rightarrow> primitive_vectors \<Rightarrow> primitive_vectors" where
  \<comment> \<open>the body of the loop over the primitives of a shell of angular momentum \<open>am\<close>\<close>
  "read_primitive am primitiveinfo v =
     (case primitiveinfo of (e, c, r) \<Rightarrow>
        v\<lparr>exponents := exponents v @ [e],
          coefficients := coefficients v @ [c],
          ns := ns v @ [r],
          sub_ls := sub_ls v @ [am]\<rparr>)"

definition read_shell :: "ShellInfo_base \<Rightarrow> py_shell \<Rightarrow> ECPShellInfo" where
  "read_shell base shellinfo =
     (let am = fst shellinfo;
          v = fold (read_primitive am) (snd shellinfo)
                \<lparr>coefficients = [], exponents = [], ns = [], sub_ls = []\<rparr>;
          fake_center = (0, 0, 0)
      in ECPShellInfo_ctor base am (coefficients v) (exponents v) (ns v) (sub_ls v) 0
           fake_center 0)"

record pydict_state =
  mol_st :: Molecule
  basis_atom_ncore :: "(string, (string, int) std_map) std_map"
  basis_atom_shell :: shell_map

definition read_atom :: "ShellInfo_base \<Rightarrow> string \<Rightarrow> string \<Rightarrow> py_atominfo \<Rightarrow> pydict_state \<Rightarrow> pydict_state" where
  \<comment> \<open>the body of the loop over the atom records\<close>
  "read_atom base nm ky atominfo st =
     (let vec_shellinfo = fold (\<lambda>shellinfo vec. vec @ [read_shell base shellinfo])
                            (atomshells atominfo) [];
          st = st\<lparr>mol_st := set_shell_by_label (atomlabel atominfo) (hash atominfo) ky
                                (mol_st st)\<rparr>;
          st = st\<lparr>basis_atom_ncore :=
                    map_assign2 nm (atomlabel atominfo) (ncore atominfo) (basis_atom_ncore st)\<rparr>
      in st\<lparr>basis_atom_shell :=
               map_assign2 nm (atomlabel atominfo) vec_shellinfo (basis_atom_shell st)\<rparr>)"

definition int32 :: "int \<Rightarrow> int" where
  \<comment> \<open>the value a 32-bit two's complement \<open>int\<close> holds for the exact result \<open>x\<close>\<close>
  "int32 x = (x + 2147483648) mod 4294967296 - 2147483648"

definition adjust_charge ::
  "(string, (string, int) std_map) std_map \<Rightarrow> nat \<Rightarrow> Molecule \<Rightarrow> Molecule" where
  \<comment> \<open>the body of the loop that modifies the nuclear charges; \<open>Z\<close> and \<open>ncore\<close> are
      \<open>int\<close> variables of the source, so the difference is a 32-bit one\<close>
  "adjust_charge ncore_map n mol =
     (let basis = basis_on_atom mol n;
          lbl = label (atom_entry mol n);
          nc = map_at2 0 ncore_map basis lbl;
          z = Z (atom_entry mol n);
          z = int32 (z - nc)
      in set_nuclear_charge n z mol)"

definition construct_ecp_from_pydict ::
  "ShellInfo_base \<Rightarrow> Molecule \<Rightarrow> py_dict \<Rightarrow> int \<Rightarrow> Molecule \<times> (error + ECPBasisSet)" where
  "construct_ecp_from_pydict base mol pybs forced_puream =
     (let ky = py_key pybs;
          nm = py_name pybs;
          lbl = py_blend pybs;
          message = py_message pybs;
          mol = set_basis_all_atoms nm ky mol;
          basisinfo = ecp_shell_map pybs
      in if length basisinfo = 0
         then (mol, Inl (PSIEXCEPTION
                 ''Empty ECP information being used to construct ECPBasisSet.''))
         else
           (let st = fold (read_atom base nm ky) basisinfo
                       \<lparr>mol_st = mol, basis_atom_ncore = [], basis_atom_shell = []\<rparr>;
                mol = update_geometry (mol_st st);
                mol = fold (adjust_charge (basis_atom_ncore st)) [0..<natom mol] mol
            in case ECPBasisSet_ctor ky mol (basis_atom_shell st) of
                 Inl e \<Rightarrow> (mol, Inl e)
               | Inr new_basisset \<Rightarrow>
                   (mol, Inr (new_basisset\<lparr>name := nm, key := ky, target := lbl\<rparr>))))"

section \<open>Notions used to state the properties\<close>

subsection \<open>Densities\<close>

definition Db_value :: "ROHF \<Rightarrow> nat \<Rightarrow> nat \<Rightarrow> nat \<Rightarrow> real" where
  \<comment> \<open>the sum over the doubly occupied orbitals\<close>
  "Db_value s h i j = (\<Sum>m = 0..<doccpi s h. Ca s h i m * Ca s h j m)"

definition Da_value :: "ROHF \<Rightarrow> nat \<Rightarrow> nat \<Rightarrow> nat \<Rightarrow> real" where
  \<comment> \<open>the beta value plus the sum over the singly occupied orbitals\<close>
  "Da_value s h i j = Db_value s h i j +
     (\<Sum>m = doccpi s h..<doccpi s h + soccpi s h. Ca s h i m * Ca s h j m)"

definition D_written :: "ROHF \<Rightarrow> (nat \<Rightarrow> nat \<Rightarrow> nat \<Rightarrow> bool) \<Rightarrow> ROHF" where
  \<comment> \<open>the state once the loops of \<open>form_D\<close> have written the entries selected by \<open>P\<close>\<close>
  "D_written s P =
     s\<lparr>Db := (\<lambda>h i j. if P h i j then Db_value s h i j else Db s h i j),
       Da := (\<lambda>h i j. if P h i j then Da_value s h i j else Da s h i j)\<rparr>"

definition in_block :: "ROHF \<Rightarrow> nat \<Rightarrow> nat \<Rightarrow> nat \<Rightarrow> bool" where
  "in_block s h i j \<longleftrightarrow> h < nirrep s \<and> i < nsopi s h \<and> j < nsopi s h"

definition total_density :: "ROHF \<Rightarrow> Matrix" where
  \<comment> \<open>the sum of the alpha and the beta density\<close>
  "total_density s = Matrix_add (Da s) (Db s)"

subsection \<open>Orbital classes of an irrep\<close>

definition closed_orbital :: "ROHF \<Rightarrow> nat \<Rightarrow> nat \<Rightarrow> bool" where
  "closed_orbital s h j \<longleftrightarrow> j < doccpi s h"

definition open_orbital :: "ROHF \<Rightarrow> nat \<Rightarrow> nat \<Rightarrow> bool" where
  "open_orbital s h i \<longleftrightarrow> doccpi s h \<le> i \<and> i < doccpi s h + soccpi s h"

definition virtual_orbital :: "ROHF \<Rightarrow> nat \<Rightarrow> nat \<Rightarrow> bool" where
  "virtual_orbital s h j \<longleftrightarrow> doccpi s h + soccpi s h \<le> j \<and> j < nmopi s h"

definition Feff_block :: "ROHF \<Rightarrow> Matrix \<Rightarrow> nat \<Rightarrow> nat \<Rightarrow> nat \<Rightarrow> real" where
  \<comment> \<open>the entries of block \<open>h\<close> once the loops of \<open>form_F\<close> have run over it, from the
      entries \<open>F\<close> before the loops\<close>
  "Feff_block s F h i j =
     (if open_orbital s h i \<and> closed_orbital s h j then moFb s h i j
      else if open_orbital s h j \<and> closed_orbital s h i then moFb s h j i
      else if open_orbital s h i \<and> virtual_orbital s h j then moFa s h i j
      else if open_orbital s h j \<and> virtual_orbital s h i then moFa s h j i
      else F h i j)"

subsection \<open>Concrete solver states\<close>

definition zero_Matrix :: Matrix where
  "zero_Matrix = (\<lambda>h i j. 0)"

definition identity_Matrix :: Matrix where
  "identity_Matrix = (\<lambda>h i j. if i = j then 1 else 0)"

definition rohf_example :: "nat \<Rightarrow> (nat \<Rightarrow> nat) \<Rightarrow> (nat \<Rightarrow> nat) \<Rightarrow> (nat \<Rightarrow> nat) \<Rightarrow> ROHF" where
  \<comment> \<open>a state with the given irreps, block dimensions and occupations, the unit matrix as
      orbital coefficients and every other matrix zero\<close>
  "rohf_example nirr n docc socc =
    \<lparr>nirrep = nirr, nsopi = n, nmopi = n, doccpi = docc, soccpi = socc,
     H = zero_Matrix, Fa = zero_Matrix, Fb = zero_Matrix, Feff = zero_Matrix,
     Ca = identity_Matrix,
     Da = zero_Matrix, Db = zero_Matrix, Ga = zero_Matrix, Gb = zero_Matrix,
     Dt = zero_Matrix, Dt_old = zero_Matrix, moFa = zero_Matrix, moFb = zero_Matrix,
     E = 0, Eold = 0, nuclearrep = 0, energy_threshold = 1 / 1000000,
     density_threshold = 1 / 1000000, Drms = 0\<rparr>"

definition one_open_shell :: ROHF where
  \<comment> \<open>one irrep with one orbital, singly occupied\<close>
  "one_open_shell = rohf_example 1 (\<lambda>h. 1) (\<lambda>h. 0) (\<lambda>h. 1)"

definition closed_open_virtual :: ROHF where
  \<comment> \<open>one irrep with one closed, one open and one virtual orbital, and alpha and beta
      two-electron parts that differ\<close>
  "closed_open_virtual =
     (rohf_example 1 (\<lambda>h. 3) (\<lambda>h. 1) (\<lambda>h. 1))
       \<lparr>Ga := (\<lambda>h i j. real (i + j) + 1), Gb := (\<lambda>h i j. real (i * j))\<rparr>"

definition iteration_prev :: ROHF where
  \<comment> \<open>two irreps of one orbital each, the unpaired electron in the first; the state after
      the density and the energy of an iteration\<close>
  "iteration_prev =
     (let s = form_D (rohf_example 2 (\<lambda>h. 1) (\<lambda>h. 0) (\<lambda>h. if h = 0 then 1 else 0))
      in s\<lparr>E := compute_E s\<rparr>)"

definition iteration_next :: ROHF where
  \<comment> \<open>the next iteration, in which the occupation moves the unpaired electron to the
      second irrep\<close>
  "iteration_next =
     (let s = save_density_and_energy iteration_prev;
          s = s\<lparr>soccpi := (\<lambda>h. if h = 1 then 1 else 0)\<rparr>;
          s = form_D s
      in s\<lparr>E := compute_E s\<rparr>)"

subsection \<open>Concrete ECP data\<close>

definition example_base :: ShellInfo_base where
  \<comment> \<open>a base-class constructor that keeps the coefficients as they are, leaves the ERD
      coefficients empty and counts Cartesian functions\<close>
  "example_base =
     \<lparr>normalized_coef = (\<lambda>am c e. c),
      erd_normalized_coef = (\<lambda>am c e. []),
      INT_NCART = (\<lambda>am. nat ((am + 1) * (am + 2) div 2)),
      INT_NFUNC = (\<lambda>t am. if t = Pure then nat (2 * am + 1)
                            else nat ((am + 1) * (am + 2) div 2))\<rparr>"

definition s_shell :: ECPShellInfo where
  \<comment> \<open>the descriptor read from the shell record \<open>[0, [1.0, 2.0, 0]]\<close>\<close>
  "s_shell = read_shell example_base (0, [(1, 2, 0)])"

definition s_shell_other :: ECPShellInfo where
  \<comment> \<open>a descriptor with another coefficient, whose ERD coefficient is the coefficient of
      \<open>s_shell\<close>\<close>
  "s_shell_other = s_shell\<lparr>si_original_coef := [7], si_erd_coef := [2]\<rparr>"

definition blank_basis :: ECPBasisSet where
  "blank_basis =
     \<lparr>name = [], key = [], target = [], n_uprimitive = 0,
      uexponents = [], ucoefficients = [], uoriginal_coefficients = [],
      uerd_coefficients = [], uns = [], usubls = [],
      n_shells = 0, nprimitive = 0, nao = 0, nbf = 0,
      shell_first_ao = [], shell_first_basis_function = [], shells = [],
      ao_to_shell = [], function_to_shell = [], function_center = [],
      shell_center = [], center_to_nshell = [], center_to_shell = [], xyz = [],
      puream = False, max_am = 0, max_nprimitive = 0\<rparr>"

definition mixed_pool :: ECPBasisSet where
  \<comment> \<open>three unique primitives with the labels 0, 1, 0, the radial powers 2, 0, 1, the
      coefficients 3, 5, 7 and exponents zero\<close>
  "mixed_pool =
     blank_basis\<lparr>n_uprimitive := 3, uexponents := [0, 0, 0],
       uoriginal_coefficients := [3, 5, 7], uns := [2, 0, 1], usubls := [0, 1, 0]\<rparr>"

definition inverse_pool :: ECPBasisSet where
  \<comment> \<open>one unique primitive with the label 0, the radial power -1, the coefficient 3 and
      exponent zero\<close>
  "inverse_pool =
     blank_basis\<lparr>n_uprimitive := 1, uexponents := [0],
       uoriginal_coefficients := [3], uns := [- 1], usubls := [0]\<rparr>"

definition inverse_shell :: GaussianECPShell where
  \<comment> \<open>the shell over the primitive of \<open>inverse_pool\<close>\<close>
  "inverse_shell = GaussianECPShell_ctor 0 1 0 0 0 0 0 0 0"

definition mixed_shell :: GaussianECPShell where
  \<comment> \<open>a shell over all three primitives of \<open>mixed_pool\<close>\<close>
  "mixed_shell = GaussianECPShell_ctor 1 3 0 0 0 0 0 0 0"

subsection \<open>The layout of the unique primitives\<close>

definition labels_of :: "ECPShellInfo \<Rightarrow> int list" where
  \<comment> \<open>the labels the first loop of the constructor reads from a descriptor\<close>
  "labels_of shell = map (\<lambda>prim. si_sub_l shell ! prim) [0..<si_nprimitive shell]"

definition shell_labels :: "ECPShellInfo list \<Rightarrow> int list" where
  "shell_labels shs = concat (map labels_of shs)"

definition stored :: "unique_primitives \<Rightarrow> (string \<Rightarrow> string \<Rightarrow> ECPShellInfo list) \<Rightarrow> bool" where
  \<comment> \<open>the vectors hold, from \<open>primitive_start\<close> to \<open>primitive_end\<close>, the primitives of the
      shells \<open>S basis label\<close>\<close>
  "stored u S \<longleftrightarrow>
     n_uprim u = length (usubls_v u) \<and>
     (\<forall>b l. map_at2 0 (primitive_start u) b l + length (shell_labels (S b l))
               = map_at2 0 (primitive_end u) b l \<and>
            map_at2 0 (primitive_end u) b l \<le> length (usubls_v u) \<and>
            (\<forall>k < length (shell_labels (S b l)).
               usubls_v u ! (map_at2 0 (primitive_start u) b l + k) = shell_labels (S b l) ! k))"

definition assign_shells ::
  "string \<Rightarrow> string \<times> ECPShellInfo list \<Rightarrow> (string \<Rightarrow> string \<Rightarrow> ECPShellInfo list)
     \<Rightarrow> string \<Rightarrow> string \<Rightarrow> ECPShellInfo list" where
  "assign_shells b e S = S(b := (S b)(fst e := snd e))"

definition shell_map_ok :: "shell_map \<Rightarrow> bool" where
  \<comment> \<open>the map and the maps in it have their keys in strictly increasing order\<close>
  "shell_map_ok m \<longleftrightarrow> map_ok m \<and> list_all (\<lambda>e. map_ok (snd e)) m"

definition primitives_consumed :: "shell_map \<Rightarrow> string \<Rightarrow> string \<Rightarrow> nat" where
  \<comment> \<open>the number of primitives of the shells under a (basis, label) key\<close>
  "primitives_consumed m basis lbl = sum_list (map si_nprimitive (map_at2 [] m basis lbl))"

definition primitive_range :: "unique_primitives \<Rightarrow> string \<Rightarrow> string \<Rightarrow> int" where
  \<comment> \<open>\<open>uend - ustart\<close> for a (basis, label) key\<close>
  "primitive_range u basis lbl =
     int (map_at2 0 (primitive_end u) basis lbl) - int (map_at2 0 (primitive_start u) basis lbl)"

definition count_mismatch :: "string \<Rightarrow> Molecule \<Rightarrow> shell_map \<Rightarrow> nat \<Rightarrow> bool" where
  \<comment> \<open>atom \<open>n\<close> consumes a number of primitives other than the size of its range\<close>
  "count_mismatch basistype mol m n \<longleftrightarrow>
     int (primitives_consumed m (basisset (atom_entry mol n) basistype)
            (label (atom_entry mol n)))
     \<noteq> primitive_range (store_unique_primitives m)
          (basisset (atom_entry mol n) basistype) (label (atom_entry mol n))"

definition uniform_shell :: "ECPShellInfo \<Rightarrow> bool" where
  \<comment> \<open>every primitive carries the angular momentum of the shell as its label\<close>
  "uniform_shell shell \<longleftrightarrow> labels_of shell = replicate (si_nprimitive shell) (si_l shell)"

definition labelled_by_am :: "int list \<Rightarrow> GaussianECPShell \<Rightarrow> bool" where
  \<comment> \<open>in the array \<open>U\<close> of labels, the primitives of the shell all carry its angular momentum\<close>
  "labelled_by_am U sh \<longleftrightarrow>
     list_all (\<lambda>k. U ! (gs_sub_l sh + k) = gs_l sh) [0..<gs_nprimitive sh]"

definition range_mismatch :: "unique_primitives \<Rightarrow> string \<Rightarrow> Molecule \<Rightarrow> shell_map \<Rightarrow> nat \<Rightarrow> bool" where
  \<comment> \<open>the test at the end of the loop over the atoms, for the ranges recorded in \<open>u\<close>\<close>
  "range_mismatch u basistype mol m n \<longleftrightarrow>
     int (primitives_consumed m (basisset (atom_entry mol n) basistype)
            (label (atom_entry mol n)))
     \<noteq> primitive_range u (basisset (atom_entry mol n) basistype) (label (atom_entry mol n))"

definition all_uniform :: "shell_map \<Rightarrow> bool" where
  "all_uniform m \<longleftrightarrow> list_all (\<lambda>e. list_all (\<lambda>e'. list_all uniform_shell (snd e')) (snd e)) m"

definition nprimitive_error :: error where
  "nprimitive_error = PSIEXCEPTION ''Problem with nprimitive in basis set construction!''"

definition assembly_start :: "string \<Rightarrow> Molecule \<Rightarrow> shell_map \<Rightarrow> assembly" where
  \<comment> \<open>the basis set and the counters of the constructor when its third loop starts\<close>
  "assembly_start basistype mol m =
     (let u = store_unique_primitives m;
          b = \<lparr>name = basistype, key = [], target = [],
               n_uprimitive = n_uprim u,
               uexponents = [], ucoefficients = [], uoriginal_coefficients = [],
               uerd_coefficients = [], uns = [], usubls = [],
               n_shells = 0, nprimitive = 0, nao = 0, nbf = 0,
               shell_first_ao = [], shell_first_basis_function = [], shells = [],
               ao_to_shell = [], function_to_shell = [], function_center = [],
               shell_center = [], center_to_nshell = [], center_to_shell = [], xyz = [],
               puream = False, max_am = 0, max_nprimitive = 0\<rparr>;
          b = fold (count_atom basistype mol m) [0..<natom mol] b;
          b = b\<lparr>uexponents := map (\<lambda>i. uexps u ! i) [0..<n_uprimitive b],
                ucoefficients := map (\<lambda>i. ucoefs u ! i) [0..<n_uprimitive b],
                uoriginal_coefficients := map (\<lambda>i. uoriginal_coefs u ! i) [0..<n_uprimitive b],
                uerd_coefficients := map (\<lambda>i. uerd_coefs u ! i) [0..<n_uprimitive b],
                uns := map (\<lambda>i. uns_v u ! i) [0..<n_uprimitive b],
                usubls := map (\<lambda>i. usubls_v u ! i) [0..<n_uprimitive b]\<rparr>
      in \<lparr>bs = b, shell_count = 0, ao_count = 0, bf_count = 0, xyz_ptr = 0,
          atom_nprim = 0\<rparr>)"

subsection \<open>The calls a molecule receives\<close>

definition ecp_ncore_map :: "py_dict \<Rightarrow> (string, (string, int) std_map) std_map" where
  \<comment> \<open>the core-electron counts recorded under (name, atom label), a later record for a
      label replacing an earlier one\<close>
  "ecp_ncore_map pybs =
     fold (\<lambda>ai. map_assign2 (py_name pybs) (atomlabel ai) (ncore ai)) (ecp_shell_map pybs) []"

definition core_electron_count :: "py_dict \<Rightarrow> string \<Rightarrow> int" where
  \<comment> \<open>the core-electron count of the atom record for a label (of the last one when several
      records carry the label), zero when the label has no record\<close>
  "core_electron_count pybs lbl =
     (case map_of (rev (map (\<lambda>ai. (atomlabel ai, ncore ai)) (ecp_shell_map pybs))) lbl of
        Some nc \<Rightarrow> nc
      | None \<Rightarrow> 0)"

definition on_ecp_basis :: "Molecule \<Rightarrow> py_dict \<Rightarrow> nat \<Rightarrow> bool" where
  \<comment> \<open>once the basis name of the input is set on all atoms, it is the name that
      \<open>basis_on_atom\<close> reads for atom \<open>n\<close>\<close>
  "on_ecp_basis mol pybs n \<longleftrightarrow>
     basis_on_atom (set_basis_all_atoms (py_name pybs) (py_key pybs) mol) n = py_name pybs"

definition fits_int32 :: "int \<Rightarrow> bool" where
  "fits_int32 x \<longleftrightarrow> - 2147483648 \<le> x \<and> x < 2147483648"

definition new_charge :: "(string, (string, int) std_map) std_map \<Rightarrow> Molecule \<Rightarrow> nat \<Rightarrow> int" where
  \<comment> \<open>the charge the loop computes for atom \<open>i\<close>\<close>
  "new_charge ncm mol i =
     int32 (Z (atoms mol ! i) - map_at2 0 ncm (basis_on_atom mol i) (label (atoms mol ! i)))"

definition is_charge_call :: "mol_call \<Rightarrow> bool" where
  "is_charge_call c = (case c of Set_nuclear_charge n z \<Rightarrow> True | _ \<Rightarrow> False)"

fun charges_before_update :: "mol_call list \<Rightarrow> bool" where
  \<comment> \<open>no nuclear charge is set after a call of \<open>update_geometry\<close>\<close>
  "charges_before_update [] = True"
| "charges_before_update (c # cs) =
     (if c = Update_geometry then \<not> list_ex is_charge_call cs
      else charges_before_update cs)"

definition adjusted :: "(string, (string, int) std_map) std_map \<Rightarrow> nat \<Rightarrow> Molecule \<Rightarrow> Molecule" where
  \<comment> \<open>the molecule once the charges of the atoms below \<open>k\<close> are modified\<close>
  "adjusted ncm k mol =
     mol\<lparr>atoms := map (\<lambda>i. if i < k then (atoms mol ! i)\<lparr>Z := new_charge ncm mol i\<rparr>
                            else atoms mol ! i) [0..<length (atoms mol)],
         calls := calls mol @ map (\<lambda>i. Set_nuclear_charge i (new_charge ncm mol i)) [0..<k]\<rparr>"

definition gold_atom :: Molecule where
  \<comment> \<open>one gold atom at the origin, with no call received yet\<close>
  "gold_atom =
     \<lparr>atoms = [\<lparr>label = ''AU'', Z = 79, basissets = (\<lambda>role. []), shellsets = (\<lambda>role. []),
                coordinates = (0, 0, 0)\<rparr>],
      calls = []\<rparr>"

definition gold_ecp :: py_dict where
  \<comment> \<open>an ECP for gold with 60 core electrons, an s shell of one primitive and a p shell of
      two\<close>
  "gold_ecp =
     \<lparr>py_key = ''BASIS'', py_name = ''LANL2DZ'', py_blend = ''LANL2DZ'', py_message = [],
      ecp_shell_map =
        [\<lparr>atomlabel = ''AU'', hash = ''f00d'', ncore = 60,
          atomshells = [(0, [(1, 2, 0)]), (1, [(3, 4, 1), (5, 6, 2)])]\<rparr>]\<rparr>"

definition gold_ecp_other_role :: py_dict where
  \<comment> \<open>the same ECP attached under the role \<open>ECP\<close> instead of \<open>BASIS\<close>\<close>
  "gold_ecp_other_role = gold_ecp\<lparr>py_key := ''ECP''\<rparr>"

definition prepared :: "Molecule \<Rightarrow> py_dict \<Rightarrow> Molecule" where
  \<comment> \<open>the molecule when the loop that modifies the charges starts\<close>
  "prepared mol pybs =
     update_geometry
       (fold (\<lambda>ai. set_shell_by_label (atomlabel ai) (hash ai) (py_key pybs))
          (ecp_shell_map pybs)
          (set_basis_all_atoms (py_name pybs) (py_key pybs) mol))"

definition ecp_shells :: "ShellInfo_base \<Rightarrow> py_dict \<Rightarrow> shell_map" where
  \<comment> \<open>the shell map the loop over the atom records builds\<close>
  "ecp_shells base pybs =
     fold (\<lambda>ai. map_assign2 (py_name pybs) (atomlabel ai)
                  (map (read_shell base) (atomshells ai))) (ecp_shell_map pybs) []"

definition gold_on_basis :: Molecule where
  \<comment> \<open>the gold atom with the basis name of \<open>gold_ecp\<close> set\<close>
  "gold_on_basis = set_basis_all_atoms ''LANL2DZ'' ''BASIS'' gold_atom"

definition repeated_key_list :: shell_map where
  \<comment> \<open>a list of entries with the key \<open>AU\<close> twice, which no \<open>std::map\<close> holds\<close>
  "repeated_key_list =
     [(''LANL2DZ'',
       [(''AU'', [read_shell example_base (0, [(1, 2, 0)])]),
        (''AU'', [read_shell example_base (0, [(1, 2, 0)]),
                 read_shell example_base (1, [(3, 4, 1), (5, 6, 2)])])])]"

section \<open>Properties of the ROHF solver\<close>

subsection \<open>Accumulation loops\<close>

lemma fold_add_sum_list:
  "fold (\<lambda>m (val::real). val + g m) xs v = v + sum_list (map g xs)"
  by (induction xs arbitrary: v) simp_all

lemma form_D_accumulate_sum:
  "form_D_accumulate C h i j lo hi v = v + (\<Sum>m = lo..<hi. C h i m * C h j m)"
  by (simp add: form_D_accumulate_def Matrix_get_def fold_add_sum_list
      interv_sum_list_conv_sum_set_nat)

lemma Matrix_vector_dot_sum:
  "Matrix_vector_dot nirr dimpi A B =
     (\<Sum>h<nirr. \<Sum>i<dimpi h. \<Sum>j<dimpi h. A h i j * B h i j)"
  by (simp add: Matrix_vector_dot_def fold_add_sum_list interv_sum_list_conv_sum_set_nat
      atLeast0LessThan)

lemma Matrix_terms_sum: "Matrix_terms nirr dimpi = (\<Sum>h<nirr. dimpi h * dimpi h)"
proof -
  have loop: "fold (\<lambda>h (t::nat). t + g h) xs v = v + sum_list (map g xs)"
    for g :: "nat \<Rightarrow> nat" and xs v
    by (induction xs arbitrary: v) simp_all
  show ?thesis
    by (simp add: Matrix_terms_def loop interv_sum_list_conv_sum_set_nat atLeast0LessThan)
qed

lemma Matrix_set_cell:
  "Matrix_set M h i j (V h i j) =
     (\<lambda>h' i' j'. if h' = h \<and> i' = i \<and> j' = j then V h' i' j' else M h' i' j')"
  by (auto simp: Matrix_set_def fun_eq_iff)

subsection \<open>The loops of form_D\<close>

lemma D_written_none: "D_written s (\<lambda>h i j. False) = s"
  by (simp add: D_written_def)

lemma D_written_values [simp]:
  "Db_value (D_written s P) = Db_value s" "Da_value (D_written s P) = Da_value s"
  "nsopi (D_written s P) = nsopi s" "nirrep (D_written s P) = nirrep s"
  by (simp_all add: D_written_def Db_value_def Da_value_def fun_eq_iff)

lemma D_written_twice:
  "D_written (D_written s P) Q = D_written s (\<lambda>h i j. P h i j \<or> Q h i j)"
  unfolding D_written_def [of "D_written s P"] D_written_values
  by (auto simp: D_written_def fun_eq_iff)

lemma form_D_entry_written:
  "form_D_entry h i j s = D_written s (\<lambda>h' i' j'. h' = h \<and> i' = i \<and> j' = j)"
proof -
  have "form_D_entry h i j s =
      s\<lparr>Db := Matrix_set (Db s) h i j (Db_value s h i j),
        Da := Matrix_set (Da s) h i j (Da_value s h i j)\<rparr>"
    by (simp add: form_D_entry_def Let_def form_D_accumulate_sum Db_value_def Da_value_def)
  also have "\<dots> = D_written s (\<lambda>h' i' j'. h' = h \<and> i' = i \<and> j' = j)"
    by (simp add: D_written_def Matrix_set_cell)
  finally show ?thesis .
qed

lemma fold_written:
  assumes step: "\<And>x s. f x s = D_written s (P (nsopi s) x)"
  shows "fold f xs s = D_written s (\<lambda>h i j. \<exists>x \<in> set xs. P (nsopi s) x h i j)"
proof (induction xs arbitrary: s)
  case Nil
  show ?case by (simp add: D_written_none)
next
  case (Cons x xs)
  have "fold f (x # xs) s = fold f xs (D_written s (P (nsopi s) x))"
    by (simp add: step)
  also have "\<dots> = D_written (D_written s (P (nsopi s) x))
                    (\<lambda>h i j. \<exists>x' \<in> set xs. P (nsopi s) x' h i j)"
    by (simp add: Cons.IH)
  also have "\<dots> = D_written s (\<lambda>h i j. \<exists>x' \<in> set (x # xs). P (nsopi s) x' h i j)"
    by (simp add: D_written_twice)
  finally show ?case .
qed

lemma form_D_row_written:
  "form_D_row h i s = D_written s (\<lambda>h' i' j'. h' = h \<and> i' = i \<and> j' < nsopi s h)"
proof -
  have "form_D_row h i s =
      D_written s (\<lambda>h' i' j'. \<exists>j \<in> set [0..<nsopi s h]. h' = h \<and> i' = i \<and> j' = j)"
    unfolding form_D_row_def
    by (rule fold_written [where P = "\<lambda>n j h' i' j'. h' = h \<and> i' = i \<and> j' = j"])
      (rule form_D_entry_written)
  also have "(\<lambda>h' i' j'. \<exists>j \<in> set [0..<nsopi s h]. h' = h \<and> i' = i \<and> j' = j) =
      (\<lambda>h' i' j'. h' = h \<and> i' = i \<and> j' < nsopi s h)"
    by (auto simp: fun_eq_iff)
  finally show ?thesis .
qed

lemma form_D_irrep_written:
  "form_D_irrep h s = D_written s (\<lambda>h' i' j'. h' = h \<and> i' < nsopi s h \<and> j' < nsopi s h)"
proof -
  have "form_D_irrep h s =
      D_written s (\<lambda>h' i' j'. \<exists>i \<in> set [0..<nsopi s h]. h' = h \<and> i' = i \<and> j' < nsopi s h)"
    unfolding form_D_irrep_def
    by (rule fold_written [where P = "\<lambda>n i h' i' j'. h' = h \<and> i' = i \<and> j' < n h"])
      (rule form_D_row_written)
  also have "(\<lambda>h' i' j'. \<exists>i \<in> set [0..<nsopi s h]. h' = h \<and> i' = i \<and> j' < nsopi s h) =
      (\<lambda>h' i' j'. h' = h \<and> i' < nsopi s h \<and> j' < nsopi s h)"
    by (auto simp: fun_eq_iff)
  finally show ?thesis .
qed

lemma form_D_loops_written:
  "fold form_D_irrep [0..<nirrep s] s = D_written s (in_block s)"
proof -
  have "fold form_D_irrep [0..<nirrep s] s =
      D_written s (\<lambda>h' i' j'. \<exists>h \<in> set [0..<nirrep s].
         h' = h \<and> i' < nsopi s h \<and> j' < nsopi s h)"
    by (rule fold_written [where P = "\<lambda>n h h' i' j'. h' = h \<and> i' < n h \<and> j' < n h"])
      (rule form_D_irrep_written)
  also have "(\<lambda>h' i' j'. \<exists>h \<in> set [0..<nirrep s].
         h' = h \<and> i' < nsopi s h \<and> j' < nsopi s h) = in_block s"
    by (auto simp: fun_eq_iff in_block_def)
  finally show ?thesis .
qed

lemma form_D_result:
  "form_D s = (D_written s (in_block s))\<lparr>Dt := Db (D_written s (in_block s))\<rparr>"
  by (simp add: form_D_def Let_def form_D_loops_written Matrix_copy_def)

lemma form_D_Dt_is_Db: "Dt (form_D s) = Db (form_D s)"
  by (simp add: form_D_result)

lemmas rohf_example_simps = rohf_example_def zero_Matrix_def identity_Matrix_def
  form_D_result D_written_def in_block_def Db_value_def Da_value_def Matrix_get_def

text \<open>
  Claim C4. For every irrep block \<open>h\<close> and all indices \<open>i\<close>, \<open>j\<close> of the block, \<open>form_D\<close> sets
  \<open>Db[i,j]\<close> to the sum over the doubly occupied orbitals \<open>m\<close> in \<open>[0, docc\<^sub>h)\<close> of
  \<open>C[i,m] * C[j,m]\<close>, and \<open>Da[i,j]\<close> to \<open>Db[i,j]\<close> plus the sum over the singly occupied
  orbitals \<open>m\<close> in \<open>[docc\<^sub>h, docc\<^sub>h + socc\<^sub>h)\<close> of \<open>C[i,m] * C[j,m]\<close>, where \<open>C\<close> is the one
  coefficient matrix, which \<open>form_D\<close> leaves as it is.
\<close>

theorem form_D_densities:
  assumes "h < nirrep s" and "i < nsopi s h" and "j < nsopi s h"
  shows "Matrix_get (Db (form_D s)) h i j = (\<Sum>m = 0..<doccpi s h. Ca s h i m * Ca s h j m) \<and>
     Matrix_get (Da (form_D s)) h i j = Matrix_get (Db (form_D s)) h i j +
          (\<Sum>m = doccpi s h..<doccpi s h + soccpi s h. Ca s h i m * Ca s h j m) \<and>
     Ca (form_D s) = Ca s"
  using assms
  by (simp add: form_D_result D_written_def in_block_def Matrix_get_def
      Db_value_def Da_value_def)

theorem form_D_densities_witness:
  "0 < nirrep closed_open_virtual \<and> 1 < nsopi closed_open_virtual 0 \<and>
   Matrix_get (Db (form_D closed_open_virtual)) 0 1 1 = 0 \<and>
   Matrix_get (Da (form_D closed_open_virtual)) 0 1 1 = 1"
  using form_D_densities [of 0 closed_open_virtual 1 1]
  by (simp add: closed_open_virtual_def rohf_example_def identity_Matrix_def)

text \<open>
  Claim C1. After \<open>form_D\<close>, the total density \<open>Dt\<close> should be the entrywise sum of the final
  \<open>Da\<close> and \<open>Db\<close>. The source copies \<open>Da\<close> into \<open>Dt\<close> and then copies \<open>Db\<close> over it, so \<open>Dt\<close>
  is \<open>Db\<close> alone: for one singly occupied orbital, \<open>Dt\<close> is 0 where \<open>Da + Db\<close> is 1.
\<close>

theorem form_D_total_density_is_beta_only:
  "Matrix_get (Dt (form_D one_open_shell)) 0 0 0 = 0 \<and>
   Matrix_get (Da (form_D one_open_shell)) 0 0 0 +
     Matrix_get (Db (form_D one_open_shell)) 0 0 0 = 1"
  by (simp add: one_open_shell_def rohf_example_simps)

subsection \<open>Energy\<close>

text \<open>
  Claim C5. The total energy of \<open>compute_E\<close> is the nuclear repulsion energy plus
  \<open>0.5 * (Da\<cdot>H + Db\<cdot>H + Da\<cdot>Fa + Db\<cdot>Fb)\<close>, each dot product being the sum of the
  products of corresponding entries over all entries of all irrep blocks.
\<close>

theorem compute_E_formula:
  "compute_E s = nuclearrep s + 0.5 *
     ((\<Sum>h<nirrep s. \<Sum>i<nsopi s h. \<Sum>j<nsopi s h. Da s h i j * H s h i j) +
      (\<Sum>h<nirrep s. \<Sum>i<nsopi s h. \<Sum>j<nsopi s h. Db s h i j * H s h i j) +
      (\<Sum>h<nirrep s. \<Sum>i<nsopi s h. \<Sum>j<nsopi s h. Da s h i j * Fa s h i j) +
      (\<Sum>h<nirrep s. \<Sum>i<nsopi s h. \<Sum>j<nsopi s h. Db s h i j * Fb s h i j))"
  by (simp add: compute_E_def Let_def Matrix_vector_dot_sum)

subsection \<open>The loops of form_F\<close>

lemma fold_open_closed:
  "fold (form_F_open_closed B h i) js F =
     (\<lambda>h' a b. if h' = h \<and> a = i \<and> b \<in> set js then B h i b
                else if h' = h \<and> b = i \<and> a \<in> set js then B h i a
                else F h' a b)"
proof (induction js arbitrary: F)
  case Nil
  show ?case by simp
next
  case (Cons j js)
  have step: "form_F_open_closed B h i j F =
      (\<lambda>h' a b. if h' = h \<and> (a = i \<and> b = j \<or> a = j \<and> b = i) then B h i j else F h' a b)"
    by (auto simp: form_F_open_closed_def Matrix_get_def Matrix_set_def Let_def fun_eq_iff)
  show ?case
    unfolding fold_Cons comp_apply Cons.IH step
    by (auto simp: fun_eq_iff)
qed

lemma fold_open_virtual:
  "fold (form_F_open_virtual A h i) js F =
     (\<lambda>h' a b. if h' = h \<and> a = i \<and> b \<in> set js then A h i b
                else if h' = h \<and> b = i \<and> a \<in> set js then A h i a
                else F h' a b)"
proof (induction js arbitrary: F)
  case Nil
  show ?case by simp
next
  case (Cons j js)
  have step: "form_F_open_virtual A h i j F =
      (\<lambda>h' a b. if h' = h \<and> (a = i \<and> b = j \<or> a = j \<and> b = i) then A h i j else F h' a b)"
    by (auto simp: form_F_open_virtual_def Matrix_get_def Matrix_set_def Let_def fun_eq_iff)
  show ?case
    unfolding fold_Cons comp_apply Cons.IH step
    by (auto simp: fun_eq_iff)
qed

lemma form_F_open_cells:
  "form_F_open s h i F =
     (\<lambda>h' a b. if h' = h \<and> a = i \<and> virtual_orbital s h b then moFa s h i b
                else if h' = h \<and> b = i \<and> virtual_orbital s h a then moFa s h i a
                else if h' = h \<and> a = i \<and> closed_orbital s h b then moFb s h i b
                else if h' = h \<and> b = i \<and> closed_orbital s h a then moFb s h i a
                else F h' a b)"
  by (simp add: form_F_open_def Let_def fold_open_closed fold_open_virtual
      virtual_orbital_def closed_orbital_def fun_eq_iff)

lemma form_F_open_block:
  assumes "open_orbital s h i"
  shows "form_F_open s h i F =
     (\<lambda>h' a b. if h' = h \<and> (a = i \<or> b = i) then Feff_block s F h a b else F h' a b)"
proof (intro ext)
  fix h' a b
  from assms have i: "\<not> closed_orbital s h i" "\<not> virtual_orbital s h i"
    by (simp_all add: open_orbital_def closed_orbital_def virtual_orbital_def)
  have excl: "\<not> (closed_orbital s h x \<and> virtual_orbital s h x)"
    "\<not> (closed_orbital s h x \<and> open_orbital s h x)"
    "\<not> (open_orbital s h x \<and> virtual_orbital s h x)" for x
    by (auto simp: open_orbital_def closed_orbital_def virtual_orbital_def)
  show "form_F_open s h i F h' a b =
      (if h' = h \<and> (a = i \<or> b = i) then Feff_block s F h a b else F h' a b)"
    using assms i excl [of a] excl [of b]
    by (auto simp: form_F_open_cells Feff_block_def)
qed

lemma fold_form_F_open:
  assumes "\<forall>i \<in> set is. open_orbital s h i"
  shows "fold (form_F_open s h) is F =
     (\<lambda>h' a b. if h' = h \<and> (a \<in> set is \<or> b \<in> set is) then Feff_block s F h a b
                else F h' a b)"
  using assms
proof (induction "is" arbitrary: F)
  case Nil
  show ?case by simp
next
  case (Cons i "is")
  then have i: "open_orbital s h i" and rest: "\<forall>i \<in> set is. open_orbital s h i"
    by simp_all
  let ?G = "\<lambda>h' a b. if h' = h \<and> (a = i \<or> b = i) then Feff_block s F h a b else F h' a b"
  have G: "Feff_block s ?G h a b = Feff_block s F h a b" for a b
    by (cases "a = i \<or> b = i") (auto simp: Feff_block_def)
  have "fold (form_F_open s h) (i # is) F = fold (form_F_open s h) is ?G"
    by (simp add: form_F_open_block [OF i])
  also have "\<dots> = (\<lambda>h' a b. if h' = h \<and> (a \<in> set is \<or> b \<in> set is)
                        then Feff_block s ?G h a b else ?G h' a b)"
    by (rule Cons.IH [OF rest])
  also have "\<dots> = (\<lambda>h' a b. if h' = h \<and> (a \<in> set (i # is) \<or> b \<in> set (i # is))
                        then Feff_block s F h a b else F h' a b)"
    unfolding G by (auto simp: fun_eq_iff)
  finally show ?case .
qed

lemma form_F_irrep_cells:
  "form_F_irrep s h F = (\<lambda>h' a b. if h' = h then Feff_block s F h a b else F h' a b)"
proof -
  have "\<forall>i \<in> set [doccpi s h..<doccpi s h + soccpi s h]. open_orbital s h i"
    by (simp add: open_orbital_def)
  from fold_form_F_open [OF this] show ?thesis
    by (auto simp: form_F_irrep_def fun_eq_iff Feff_block_def open_orbital_def)
qed

lemma fold_form_F_irrep:
  "fold (form_F_irrep s) hs F =
     (\<lambda>h a b. if h \<in> set hs then Feff_block s F h a b else F h a b)"
proof (induction hs arbitrary: F)
  case Nil
  show ?case by simp
next
  case (Cons h hs)
  let ?G = "\<lambda>h' a b. if h' = h then Feff_block s F h a b else F h' a b"
  have G: "Feff_block s ?G h' a b = Feff_block s F h' a b" for h' a b
    by (cases "h' = h") (auto simp: Feff_block_def)
  have "fold (form_F_irrep s) (h # hs) F = fold (form_F_irrep s) hs ?G"
    by (simp add: form_F_irrep_cells)
  also have "\<dots> = (\<lambda>h' a b. if h' \<in> set hs then Feff_block s ?G h' a b else ?G h' a b)"
    by (rule Cons.IH)
  also have "\<dots> = (\<lambda>h' a b. if h' \<in> set (h # hs) then Feff_block s F h' a b else F h' a b)"
    unfolding G by (auto simp: fun_eq_iff)
  finally show ?case .
qed

text \<open>
  Claim C2. For every irrep \<open>h\<close>, the effective Fock matrix made by \<open>form_F\<close> is
  \<open>0.5 * (moFa + moFb)\<close> at every entry, except that the entries \<open>(i,j)\<close> and \<open>(j,i)\<close> with
  \<open>i\<close> open and \<open>j\<close> closed are the beta entry \<open>moFb[i,j]\<close>, and the entries \<open>(i,j)\<close> and
  \<open>(j,i)\<close> with \<open>i\<close> open and \<open>j\<close> virtual are the alpha entry \<open>moFa[i,j]\<close>. (The source's
  \<open>get\<close> and \<open>set\<close> do not check an index against the block's dimension; the occupations
  are taken to fit in it.)
\<close>

theorem form_F_effective_Fock:
  assumes "h < nirrep s"
  shows "Matrix_get (Feff (form_F s)) h i j =
     (if open_orbital s h i \<and> closed_orbital s h j then Matrix_get (moFb (form_F s)) h i j
      else if open_orbital s h j \<and> closed_orbital s h i then Matrix_get (moFb (form_F s)) h j i
      else if open_orbital s h i \<and> virtual_orbital s h j then Matrix_get (moFa (form_F s)) h i j
      else if open_orbital s h j \<and> virtual_orbital s h i then Matrix_get (moFa (form_F s)) h j i
      else 0.5 * (Matrix_get (moFa (form_F s)) h i j + Matrix_get (moFb (form_F s)) h i j))"
  using assms
  by (simp add: form_F_def Let_def fold_form_F_irrep Feff_block_def Matrix_get_def
      Matrix_copy_def Matrix_add_def Matrix_scale_def open_orbital_def closed_orbital_def
      virtual_orbital_def)

lemma upt_0_3: "[0..<3] = [0, 1, 2]"
  by (simp add: upt_rec)

lemma closed_open_virtual_moFa:
  "moFa (form_F closed_open_virtual) = (\<lambda>h i j. if i < 3 \<and> j < 3 then real (i + j) + 1 else 0)"
  by (auto simp: form_F_def Let_def closed_open_virtual_def rohf_example_def zero_Matrix_def
      identity_Matrix_def Matrix_copy_def Matrix_add_def Matrix_transform_def upt_0_3
      fun_eq_iff)

lemma closed_open_virtual_moFb:
  "moFb (form_F closed_open_virtual) = (\<lambda>h i j. if i < 3 \<and> j < 3 then real (i * j) else 0)"
  by (auto simp: form_F_def Let_def closed_open_virtual_def rohf_example_def zero_Matrix_def
      identity_Matrix_def Matrix_copy_def Matrix_add_def Matrix_transform_def upt_0_3
      fun_eq_iff)

lemma closed_open_virtual_classes:
  "nirrep closed_open_virtual = 1"
  "closed_orbital closed_open_virtual 0 j \<longleftrightarrow> j = 0"
  "open_orbital closed_open_virtual 0 j \<longleftrightarrow> j = 1"
  "virtual_orbital closed_open_virtual 0 j \<longleftrightarrow> j = 2"
  by (auto simp: closed_open_virtual_def rohf_example_def open_orbital_def closed_orbital_def
      virtual_orbital_def)

theorem form_F_effective_Fock_witness:
  "0 < nirrep closed_open_virtual \<and>
   Matrix_get (Feff (form_F closed_open_virtual)) 0 0 1 = 0 \<and>
   Matrix_get (Feff (form_F closed_open_virtual)) 0 1 2 = 4 \<and>
   Matrix_get (Feff (form_F closed_open_virtual)) 0 2 2 = 9 / 2"
  using form_F_effective_Fock [of 0 closed_open_virtual 0 1]
    form_F_effective_Fock [of 0 closed_open_virtual 1 2]
    form_F_effective_Fock [of 0 closed_open_virtual 2 2]
  by (simp add: closed_open_virtual_classes closed_open_virtual_moFa closed_open_virtual_moFb
      Matrix_get_def)

subsection \<open>Convergence test\<close>

lemma test_convergency_criteria:
  "fst (test_convergency s) \<longleftrightarrow>
     \<bar>E s - Eold s\<bar> < energy_threshold s \<and>
     Matrix_rms (nirrep s) (nsopi s) (Matrix_subtract (Dt s) (Dt_old s)) < density_threshold s"
  by (simp add: test_convergency_def Let_def Matrix_copy_def)

lemma iteration_prev_state:
  "Da iteration_prev = (\<lambda>h i j. if h = 0 \<and> i = 0 \<and> j = 0 then 1 else 0)"
  "Db iteration_prev = (\<lambda>h i j. 0)"
  "Dt iteration_prev = (\<lambda>h i j. 0)"
  "E iteration_prev = 0"
  by (auto simp: iteration_prev_def Let_def compute_E_def Matrix_vector_dot_sum
      rohf_example_simps fun_eq_iff)

lemma iteration_next_state:
  "Da iteration_next = (\<lambda>h i j. if h = 1 \<and> i = 0 \<and> j = 0 then 1 else 0)"
  "Db iteration_next = (\<lambda>h i j. 0)"
  "Dt iteration_next = (\<lambda>h i j. 0)"
  "Dt_old iteration_next = (\<lambda>h i j. 0)"
  "E iteration_next = 0" "Eold iteration_next = 0"
  "nirrep iteration_next = 2" "nsopi iteration_next = (\<lambda>h. 1)"
  "energy_threshold iteration_next = 1 / 1000000"
  "density_threshold iteration_next = 1 / 1000000"
  unfolding iteration_next_def Let_def save_density_and_energy_def
  by (auto simp: iteration_prev_state compute_E_def Matrix_vector_dot_sum Matrix_copy_def
      form_D_result D_written_def in_block_def Db_value_def Da_value_def fun_eq_iff
      iteration_prev_def rohf_example_def zero_Matrix_def identity_Matrix_def)

lemma lessThan_2: "{..<2::nat} = {0, 1}"
  by auto

text \<open>
  Claim C3. The convergence test should return true if and only if both the energy change is
  below the energy threshold and the RMS change of the total density \<open>Da + Db\<close> since the
  previous iteration is below the density threshold. The test itself compares \<open>Dt\<close> with
  \<open>Dt_old\<close> (lemma \<open>test_convergency_criteria\<close>), but \<open>form_D\<close> leaves \<open>Db\<close> alone in \<open>Dt\<close>:
  when the unpaired electron moves from one irrep to another between two iterations, the
  total density changes with RMS 1, far above the threshold, and the test still reports
  convergence.
\<close>

theorem test_convergency_blind_to_alpha_density:
  "fst (test_convergency iteration_next) \<and>
   \<not> Matrix_rms (nirrep iteration_next) (nsopi iteration_next)
        (Matrix_subtract (total_density iteration_next) (total_density iteration_prev))
      < density_threshold iteration_next"
proof -
  have "Matrix_rms 2 (\<lambda>h. 1) (\<lambda>h i j. 0) = 0"
    by (simp add: Matrix_rms_def Matrix_vector_dot_sum)
  then have conv: "fst (test_convergency iteration_next)"
    by (simp add: test_convergency_criteria iteration_next_state Matrix_subtract_def)
  have "Matrix_rms 2 (\<lambda>h. 1)
      (Matrix_subtract (total_density iteration_next) (total_density iteration_prev)) = 1"
    by (simp add: Matrix_rms_def Matrix_vector_dot_sum Matrix_terms_sum lessThan_2
        total_density_def Matrix_add_def Matrix_subtract_def iteration_next_state
        iteration_prev_state)
  with conv show ?thesis
    by (simp add: iteration_next_state)
qed

section \<open>Properties of the ECP shells and basis sets\<close>

subsection \<open>Descriptors\<close>

lemma ECPShellInfo_eq_self:
  "ECPShellInfo_eq s s \<longleftrightarrow> si_original_coef s = si_erd_coef s"
  by (auto simp: ECPShellInfo_eq_def)

lemma read_shell_vectors:
  "fold (read_primitive am) ps v =
     v\<lparr>exponents := exponents v @ map fst ps,
       coefficients := coefficients v @ map (\<lambda>p. fst (snd p)) ps,
       ns := ns v @ map (\<lambda>p. snd (snd p)) ps,
       sub_ls := sub_ls v @ replicate (length ps) am\<rparr>"
  by (induction ps arbitrary: v)
    (auto simp: read_primitive_def replicate_app_Cons_same split: prod.splits)

lemma read_shell_fields:
  "read_shell base shellinfo =
     ECPShellInfo_ctor base (fst shellinfo) (map (\<lambda>p. fst (snd p)) (snd shellinfo))
       (map fst (snd shellinfo)) (map (\<lambda>p. snd (snd p)) (snd shellinfo))
       (replicate (length (snd shellinfo)) (fst shellinfo)) 0 (0, 0, 0) 0"
  by (simp add: read_shell_def Let_def read_shell_vectors)

text \<open>
  Claim C8. \<open>operator==\<close> on two ECP shell descriptors should return true if and only if all
  corresponding fields are equal. The source compares the original coefficients of the left
  descriptor with the ERD coefficients of the right one (and never the original coefficients
  of both): a descriptor read from a shell record is not equal to itself, and it is equal to
  a descriptor with other coefficients.
\<close>

theorem ECPShellInfo_eq_compares_erd_coef:
  "\<not> ECPShellInfo_eq s_shell s_shell \<and>
   ECPShellInfo_eq s_shell s_shell_other \<and>
   si_original_coef s_shell \<noteq> si_original_coef s_shell_other"
  by (simp add: ECPShellInfo_eq_def s_shell_other_def s_shell_def read_shell_fields
      ECPShellInfo_ctor_def example_base_def)

subsection \<open>Evaluation of a shell\<close>

lemma pow_finite: "r \<noteq> 0 \<or> 0 \<le> n \<Longrightarrow> pow r n = Some (r powi n)"
  by (auto simp: pow_def)

lemma fold_skip:
  "\<forall>i \<in> set xs. \<not> P i \<Longrightarrow> fold (\<lambda>i val. if P i then F i val else val) xs v = v"
  by (induction xs arbitrary: v) simp_all

lemma fold_cond_add:
  assumes "\<forall>i \<in> set xs. P i \<longrightarrow> r \<noteq> 0 \<or> 0 \<le> n i"
  shows "fold (\<lambda>i val. if P i
                       then (case (val, pow r (n i)) of
                               (Some v, Some p) \<Rightarrow> Some (v + p * c i * e i)
                             | _ \<Rightarrow> None)
                       else val) xs (Some v) =
     Some (v + sum_list (map (\<lambda>i. (r powi n i) * c i * e i) (filter P xs)))"
  using assms
proof (induction xs arbitrary: v)
  case Nil
  show ?case by simp
next
  case (Cons x xs)
  then have rest: "\<forall>i \<in> set xs. P i \<longrightarrow> r \<noteq> 0 \<or> 0 \<le> n i"
    by simp
  show ?case
  proof (cases "P x")
    case True
    with Cons.prems have "pow r (n x) = Some (r powi n x)"
      by (simp add: pow_finite)
    with True Cons.IH [OF rest] show ?thesis
      by (simp add: add.assoc)
  next
    case False
    with Cons.IH [OF rest] show ?thesis by simp
  qed
qed

text \<open>
  Claim C9. For every radius \<open>r\<close> and angular momentum \<open>l\<close>, \<open>evaluate(r, l)\<close> is the sum of
  \<open>r^n\<^sub>i * coef\<^sub>i * exp(-exponent\<^sub>i * r\<^sup>2)\<close> over exactly the primitives \<open>i\<close> of the shell whose
  label \<open>sub_l[i]\<close> is \<open>l\<close>; the other primitives contribute nothing. The shell's primitives
  are taken to lie inside the arrays it points into, and the powers in the sum to be
  defined: the radius is not zero, or no primitive with the label \<open>l\<close> has a negative radial
  power (at radius zero such a primitive makes the source's result infinite).
\<close>

theorem evaluate_sum_over_label:
  assumes "gs_sub_l sh + gs_nprimitive sh \<le> length (usubls b)"
    and "gs_n sh + gs_nprimitive sh \<le> length (uns b)"
    and "gs_original_coef sh + gs_nprimitive sh \<le> length (uoriginal_coefficients b)"
    and "gs_exp sh + gs_nprimitive sh \<le> length (uexponents b)"
    and "r \<noteq> 0 \<or>
         (\<forall>i < gs_nprimitive sh. usubls b ! (gs_sub_l sh + i) = l \<longrightarrow> 0 \<le> uns b ! (gs_n sh + i))"
  shows "evaluate b sh r l =
     Some (\<Sum>i \<in> {i. i < gs_nprimitive sh \<and> usubls b ! (gs_sub_l sh + i) = l}.
             (r powi (uns b ! (gs_n sh + i)))
             * (uoriginal_coefficients b ! (gs_original_coef sh + i))
             * exp (- (uexponents b ! (gs_exp sh + i)) * r\<^sup>2))"
proof -
  have set: "set (filter (\<lambda>i. usubls b ! (gs_sub_l sh + i) = l) [0..<gs_nprimitive sh]) =
      {i. i < gs_nprimitive sh \<and> usubls b ! (gs_sub_l sh + i) = l}"
    by auto
  from assms(5)
  have ok: "\<forall>i \<in> set [0..<gs_nprimitive sh].
      usubls b ! (gs_sub_l sh + i) = l \<longrightarrow> r \<noteq> 0 \<or> 0 \<le> uns b ! (gs_n sh + i)"
    by auto
  have "evaluate b sh r l =
      Some (0 + sum_list (map (\<lambda>i. (r powi (uns b ! (gs_n sh + i)))
             * (uoriginal_coefficients b ! (gs_original_coef sh + i))
             * exp (- (uexponents b ! (gs_exp sh + i)) * (r * r)))
          (filter (\<lambda>i. usubls b ! (gs_sub_l sh + i) = l) [0..<gs_nprimitive sh])))"
    unfolding evaluate_def Let_def
    by (rule fold_cond_add [OF ok])
  then show ?thesis
    unfolding set [symmetric]
    by (simp add: sum_list_distinct_conv_sum_set power2_eq_square)
qed

theorem evaluate_sum_over_label_witness:
  "gs_sub_l mixed_shell + gs_nprimitive mixed_shell \<le> length (usubls mixed_pool) \<and>
   gs_n mixed_shell + gs_nprimitive mixed_shell \<le> length (uns mixed_pool) \<and>
   gs_original_coef mixed_shell + gs_nprimitive mixed_shell
     \<le> length (uoriginal_coefficients mixed_pool) \<and>
   gs_exp mixed_shell + gs_nprimitive mixed_shell \<le> length (uexponents mixed_pool) \<and>
   (2::real) \<noteq> 0 \<and>
   list_all (\<lambda>i. 0 \<le> uns mixed_pool ! (gs_n mixed_shell + i)) [0..<gs_nprimitive mixed_shell] \<and>
   evaluate mixed_pool mixed_shell 2 0 = Some 26 \<and>
   evaluate mixed_pool mixed_shell 2 1 = Some 5 \<and>
   evaluate mixed_pool mixed_shell 0 1 = Some 5"
proof -
  have sh: "gs_sub_l mixed_shell = 0" "gs_n mixed_shell = 0" "gs_original_coef mixed_shell = 0"
    "gs_exp mixed_shell = 0" "gs_nprimitive mixed_shell = 3"
    by (simp_all add: mixed_shell_def GaussianECPShell_ctor_def)
  have pool: "usubls mixed_pool = [0, 1, 0]" "uns mixed_pool = [2, 0, 1]"
    "uoriginal_coefficients mixed_pool = [3, 5, 7]" "uexponents mixed_pool = [0, 0, 0]"
    by (simp_all add: mixed_pool_def blank_basis_def)
  have l0: "{i. i < 3 \<and> [0, 1, 0::int] ! i = 0} = {0, 2::nat}"
    by (auto simp: nth_Cons' less_Suc_eq eval_nat_numeral split: if_splits)
  have l1: "{i. i < 3 \<and> [0, 1, 0::int] ! i = 1} = {1::nat}"
    by (auto simp: nth_Cons' less_Suc_eq eval_nat_numeral split: if_splits)
  have b: "gs_sub_l mixed_shell + gs_nprimitive mixed_shell \<le> length (usubls mixed_pool)"
    "gs_n mixed_shell + gs_nprimitive mixed_shell \<le> length (uns mixed_pool)"
    "gs_original_coef mixed_shell + gs_nprimitive mixed_shell
       \<le> length (uoriginal_coefficients mixed_pool)"
    "gs_exp mixed_shell + gs_nprimitive mixed_shell \<le> length (uexponents mixed_pool)"
    by (simp_all add: sh pool)
  have nonneg: "list_all (\<lambda>i. 0 \<le> uns mixed_pool ! (gs_n mixed_shell + i))
      [0..<gs_nprimitive mixed_shell]"
    by (simp add: sh pool list_all_iff nth_Cons' less_Suc_eq eval_nat_numeral)
  then have powers: "(0::real) \<noteq> 0 \<or> (\<forall>i < gs_nprimitive mixed_shell.
      usubls mixed_pool ! (gs_sub_l mixed_shell + i) = 1
        \<longrightarrow> 0 \<le> uns mixed_pool ! (gs_n mixed_shell + i))"
    by (simp add: list_all_iff)
  have 1: "evaluate mixed_pool mixed_shell 2 0 = Some 26"
    using evaluate_sum_over_label [OF b, of 2 0] by (simp add: sh pool l0)
  have 2: "evaluate mixed_pool mixed_shell 2 1 = Some 5"
    using evaluate_sum_over_label [OF b, of 2 1] by (simp add: sh pool l1)
  have 3: "evaluate mixed_pool mixed_shell 0 1 = Some 5"
    using evaluate_sum_over_label [OF b powers] by (simp add: sh pool l1)
  from b nonneg 1 2 3 show ?thesis by simp
qed

lemma evaluate_at_origin_negative_power:
  "evaluate inverse_pool inverse_shell 0 0 = None \<and>
   evaluate inverse_pool inverse_shell 2 0 = Some (3 / 2)"
  by (simp add: evaluate_def inverse_pool_def inverse_shell_def blank_basis_def
      GaussianECPShell_ctor_def pow_def power_int_minus)

subsection \<open>Maps\<close>

lemma map_of_map_assign: "map_of (map_assign k v m) = (map_of m)(k \<mapsto> v)"
  by (induction m) (auto simp: fun_eq_iff)

lemma map_at_map_assign: "map_at d (map_assign k v m) k' = (if k' = k then v else map_at d m k')"
  by (simp add: map_at_def map_of_map_assign)

lemma map_at2_map_assign2:
  "map_at2 d (map_assign2 a b v m) a' b' =
     (if a' = a \<and> b' = b then v else map_at2 d m a' b')"
  by (simp add: map_at2_def map_assign2_def map_at_map_assign)

lemma map_at_Nil [simp]: "map_at d [] k = d"
  by (simp add: map_at_def)

lemma keys_map_assign: "fst ` set (map_assign k v m) = insert k (fst ` set m)"
  using arg_cong [OF map_of_map_assign [of k v m], of dom]
  by (simp add: dom_map_of_conv_image_fst)

lemma set_map_assign: "set (map_assign k v m) \<subseteq> insert (k, v) (set m)"
  by (induction m) (auto split: if_splits)

lemma map_ok_map_assign: "map_ok m \<Longrightarrow> map_ok (map_assign k v m)"
proof (induction m)
  case Nil
  show ?case by (simp add: map_ok_def)
next
  case (Cons e m)
  obtain k' v' where e: "e = (k', v')" by (cases e)
  from Cons.prems have tail: "map_ok m" and low: "\<forall>x \<in> set m. k' < fst x"
    by (auto simp: map_ok_def e)
  have keys: "\<forall>x \<in> set (map_assign k v m). fst x = k \<or> fst x \<in> fst ` set m"
    using keys_map_assign [of k v m] by auto
  show ?case
  proof (cases "k < k'")
    case True
    with Cons.prems low show ?thesis by (auto simp: map_ok_def e)
  next
    case False
    show ?thesis
    proof (cases "k = k'")
      case True
      with Cons.prems show ?thesis by (auto simp: map_ok_def e)
    next
      case ne: False
      with False have "k' < k" by simp
      with keys low Cons.IH [OF tail] False ne show ?thesis
        by (fastforce simp: map_ok_def e)
    qed
  qed
qed

lemma map_ok_distinct: "map_ok m \<Longrightarrow> distinct (map fst m)"
  by (simp add: map_ok_def strict_sorted_iff)

subsection \<open>The first loop: storing the unique primitives\<close>

lemma length_labels_of [simp]: "length (labels_of sh) = si_nprimitive sh"
  by (simp add: labels_of_def)

lemma fold_store_primitive:
  "fold (store_primitive sh) ps u =
     u\<lparr>uexps := uexps u @ map (\<lambda>p. si_exp sh ! p) ps,
       ucoefs := ucoefs u @ map (\<lambda>p. si_coef sh ! p) ps,
       uoriginal_coefs := uoriginal_coefs u @ map (\<lambda>p. si_original_coef sh ! p) ps,
       uerd_coefs := uerd_coefs u @ replicate (length ps) 0,
       uns_v := uns_v u @ map (\<lambda>p. si_n sh ! p) ps,
       usubls_v := usubls_v u @ map (\<lambda>p. si_sub_l sh ! p) ps,
       n_uprim := n_uprim u + length ps\<rparr>"
  by (induction ps arbitrary: u) (simp_all add: store_primitive_def replicate_app_Cons_same)

lemma store_shell_fields:
  "usubls_v (store_shell sh u) = usubls_v u @ labels_of sh"
  "n_uprim (store_shell sh u) = n_uprim u + si_nprimitive sh"
  "primitive_start (store_shell sh u) = primitive_start u"
  "primitive_end (store_shell sh u) = primitive_end u"
  "length (uexps (store_shell sh u)) = length (uexps u) + si_nprimitive sh"
  "length (uoriginal_coefs (store_shell sh u)) = length (uoriginal_coefs u) + si_nprimitive sh"
  "length (uns_v (store_shell sh u)) = length (uns_v u) + si_nprimitive sh"
  by (simp_all add: store_shell_def fold_store_primitive labels_of_def)

lemma length_shell_labels: "length (shell_labels shs) = sum_list (map si_nprimitive shs)"
  by (induction shs) (simp_all add: shell_labels_def)

lemma fold_store_shell_fields:
  "usubls_v (fold store_shell shs u) = usubls_v u @ shell_labels shs \<and>
   n_uprim (fold store_shell shs u) = n_uprim u + length (shell_labels shs) \<and>
   primitive_start (fold store_shell shs u) = primitive_start u \<and>
   primitive_end (fold store_shell shs u) = primitive_end u"
  by (induction shs arbitrary: u) (simp_all add: store_shell_fields shell_labels_def)

lemma store_label_stored:
  assumes "stored u S"
  shows "stored (store_label b e u) (assign_shells b e S)"
proof -
  obtain l shs where e: "e = (l, shs)" by (cases e)
  let ?u1 = "u\<lparr>primitive_start := map_assign2 b l (n_uprim u) (primitive_start u)\<rparr>"
  let ?u2 = "fold store_shell shs ?u1"
  note f = fold_store_shell_fields [of shs ?u1]
  from assms have n: "n_uprim u = length (usubls_v u)"
    by (simp add: stored_def)
  have st: "map_at2 0 (primitive_start (store_label b e u)) b' l' =
      (if b' = b \<and> l' = l then length (usubls_v u) else map_at2 0 (primitive_start u) b' l')"
    for b' l'
    using f by (simp add: store_label_def Let_def e map_at2_map_assign2 n)
  have en: "map_at2 0 (primitive_end (store_label b e u)) b' l' =
      (if b' = b \<and> l' = l then length (usubls_v u) + length (shell_labels shs)
       else map_at2 0 (primitive_end u) b' l')"
    for b' l'
    using f by (simp add: store_label_def Let_def e map_at2_map_assign2 n)
  have us: "usubls_v (store_label b e u) = usubls_v u @ shell_labels shs"
    and nu: "n_uprim (store_label b e u) = length (usubls_v u) + length (shell_labels shs)"
    using f by (simp_all add: store_label_def Let_def e n)
  have S: "assign_shells b e S b' l' = (if b' = b \<and> l' = l then shs else S b' l')" for b' l'
    by (simp add: assign_shells_def e)
  have old: "map_at2 0 (primitive_start u) b' l' + length (shell_labels (S b' l'))
        = map_at2 0 (primitive_end u) b' l'"
    "map_at2 0 (primitive_end u) b' l' \<le> length (usubls_v u)"
    "k < length (shell_labels (S b' l')) \<Longrightarrow>
       usubls_v u ! (map_at2 0 (primitive_start u) b' l' + k) = shell_labels (S b' l') ! k"
    for b' l' k
    using assms by (simp_all add: stored_def)
  have range: "map_at2 0 (primitive_start (store_label b e u)) b' l'
        + length (shell_labels (assign_shells b e S b' l'))
      = map_at2 0 (primitive_end (store_label b e u)) b' l'" for b' l'
    by (simp add: st en S old)
  have inside: "map_at2 0 (primitive_end (store_label b e u)) b' l'
      \<le> length (usubls_v (store_label b e u))" for b' l'
    using old(2) [of b' l'] by (simp add: en us)
  have content: "usubls_v (store_label b e u) !
        (map_at2 0 (primitive_start (store_label b e u)) b' l' + k)
      = shell_labels (assign_shells b e S b' l') ! k"
    if k: "k < length (shell_labels (assign_shells b e S b' l'))" for b' l' k
  proof (cases "b' = b \<and> l' = l")
    case True
    then show ?thesis by (simp add: st us S nth_append)
  next
    case False
    then have same: "assign_shells b e S b' l' = S b' l'"
      by (auto simp: S)
    with k have k': "k < length (shell_labels (S b' l'))" by simp
    with old(1) [of b' l'] old(2) [of b' l']
    have "map_at2 0 (primitive_start u) b' l' + k < length (usubls_v u)" by simp
    moreover from False have "map_at2 0 (primitive_start (store_label b e u)) b' l'
        = map_at2 0 (primitive_start u) b' l'"
      by (auto simp: st)
    ultimately show ?thesis
      using old(3) [OF k'] by (simp add: us same nth_append)
  qed
  show ?thesis
    unfolding stored_def
    using range inside content by (simp add: nu us)
qed

lemma store_basis_stored:
  "stored u S \<Longrightarrow> stored (fold (store_label b) sm u) (fold (assign_shells b) sm S)"
  by (induction sm arbitrary: u S) (simp_all add: store_label_stored)

lemma store_all_stored:
  "stored u S \<Longrightarrow>
   stored (fold store_basis m u) (fold (\<lambda>e. fold (assign_shells (fst e)) (snd e)) m S)"
  by (induction m arbitrary: u S) (simp_all add: store_basis_def store_basis_stored)

lemma fold_assign_shells:
  "distinct (map fst sm) \<Longrightarrow>
   fold (assign_shells b) sm S =
     S(b := (\<lambda>l. case map_of sm l of Some shs \<Rightarrow> shs | None \<Rightarrow> S b l))"
proof (induction sm arbitrary: S)
  case Nil
  show ?case by (simp add: fun_eq_iff)
next
  case (Cons e sm)
  obtain l shs where e: "e = (l, shs)" by (cases e)
  from Cons.prems have d: "distinct (map fst sm)" and l: "map_of sm l = None"
    by (auto simp: e map_of_eq_None_iff)
  have "fold (assign_shells b) (e # sm) S = fold (assign_shells b) sm (assign_shells b e S)"
    by simp
  also have "\<dots> = (assign_shells b e S)(b := (\<lambda>l. case map_of sm l of Some shs \<Rightarrow> shs
                                                  | None \<Rightarrow> assign_shells b e S b l))"
    by (rule Cons.IH [OF d])
  also have "\<dots> = S(b := (\<lambda>l. case map_of (e # sm) l of Some shs \<Rightarrow> shs | None \<Rightarrow> S b l))"
    by (auto simp: assign_shells_def e fun_eq_iff l split: option.splits)
  finally show ?case .
qed

lemma fold_assign_all:
  "distinct (map fst m) \<Longrightarrow> list_all (\<lambda>e. distinct (map fst (snd e))) m \<Longrightarrow>
   fold (\<lambda>e. fold (assign_shells (fst e)) (snd e)) m S =
     (\<lambda>b. case map_of m b of
             Some sm \<Rightarrow> (\<lambda>l. case map_of sm l of Some shs \<Rightarrow> shs | None \<Rightarrow> S b l)
           | None \<Rightarrow> S b)"
proof (induction m arbitrary: S)
  case Nil
  show ?case by (simp add: fun_eq_iff)
next
  case (Cons e m)
  obtain b sm where e: "e = (b, sm)" by (cases e)
  from Cons.prems have d: "distinct (map fst m)" and b: "map_of m b = None"
    and i: "distinct (map fst sm)" and r: "list_all (\<lambda>e. distinct (map fst (snd e))) m"
    by (auto simp: e map_of_eq_None_iff)
  let ?S1 = "fold (assign_shells b) sm S"
  have "fold (\<lambda>e. fold (assign_shells (fst e)) (snd e)) (e # m) S =
      fold (\<lambda>e. fold (assign_shells (fst e)) (snd e)) m ?S1"
    by (simp add: e)
  also have "\<dots> = (\<lambda>b. case map_of m b of
             Some sm \<Rightarrow> (\<lambda>l. case map_of sm l of Some shs \<Rightarrow> shs | None \<Rightarrow> ?S1 b l)
           | None \<Rightarrow> ?S1 b)"
    by (rule Cons.IH [OF d r])
  also have "\<dots> = (\<lambda>b. case map_of (e # m) b of
             Some sm \<Rightarrow> (\<lambda>l. case map_of sm l of Some shs \<Rightarrow> shs | None \<Rightarrow> S b l)
           | None \<Rightarrow> S b)"
    unfolding fold_assign_shells [OF i]
    by (auto simp: e fun_eq_iff b split: option.splits)
  finally show ?case .
qed

lemma stored_initial:
  "stored \<lparr>uexps = [], ucoefs = [], uoriginal_coefs = [], uerd_coefs = [], uns_v = [],
        usubls_v = [], n_uprim = 0, primitive_start = [], primitive_end = []\<rparr> (\<lambda>b l. [])"
  by (simp add: stored_def map_at2_def shell_labels_def)

lemma store_unique_primitives_stored:
  assumes "shell_map_ok m"
  shows "stored (store_unique_primitives m) (map_at2 [] m)"
proof -
  from assms have d: "distinct (map fst m)"
    and i: "list_all (\<lambda>e. distinct (map fst (snd e))) m"
    by (auto simp: shell_map_ok_def map_ok_distinct list_all_iff)
  have "fold (\<lambda>e. fold (assign_shells (fst e)) (snd e)) m (\<lambda>b l. []) = map_at2 [] m"
    by (auto simp: fold_assign_all [OF d i] map_at2_def map_at_def fun_eq_iff
        split: option.splits)
  with store_all_stored [OF stored_initial, of m] show ?thesis
    by (simp add: store_unique_primitives_def)
qed

subsection \<open>The third loop: assembling the shells\<close>

lemma fold_nth: "fold (\<lambda>i. f (xs ! i)) [0..<length xs] a = fold f xs a"
proof -
  have "fold (\<lambda>i. f (xs ! i)) [0..<length xs] a = fold f (map (\<lambda>i. xs ! i) [0..<length xs]) a"
    by (simp add: fold_map comp_def)
  then show ?thesis by (simp add: map_nth)
qed

lemma assemble_shell_fields:
  "atom_nprim (assemble_shell n ustart sh a) = atom_nprim a + si_nprimitive sh"
  "usubls (bs (assemble_shell n ustart sh a)) = usubls (bs a)"
  "shells (bs (assemble_shell n ustart sh a)) =
     shells (bs a) @ [GaussianECPShell_ctor (si_l sh) (si_nprimitive sh)
        (ustart + atom_nprim a) (ustart + atom_nprim a) (ustart + atom_nprim a)
        (ustart + atom_nprim a) (int n) (xyz_ptr a) (bf_count a)]"
  by (simp_all add: assemble_shell_def Let_def)

lemma fold_assemble_shell_count:
  "atom_nprim (fold (assemble_shell n ustart) shs a)
     = atom_nprim a + sum_list (map si_nprimitive shs)"
  by (induction shs arbitrary: a) (simp_all add: assemble_shell_fields)

lemma fold_assemble_shell_usubls:
  "usubls (bs (fold (assemble_shell n ustart) shs a)) = usubls (bs a)"
  by (induction shs arbitrary: a) (simp_all add: assemble_shell_fields)

lemma shell_labels_Cons: "shell_labels (sh # shs) = labels_of sh @ shell_labels shs"
  by (simp add: shell_labels_def)

lemma fold_assemble_shell_labelled:
  assumes "list_all (labelled_by_am U) (shells (bs a))"
    and "list_all uniform_shell shs"
    and "\<And>k. k < length (shell_labels shs) \<Longrightarrow>
           U ! (ustart + atom_nprim a + k) = shell_labels shs ! k"
  shows "list_all (labelled_by_am U) (shells (bs (fold (assemble_shell n ustart) shs a)))"
  using assms
proof (induction shs arbitrary: a)
  case Nil
  then show ?case by simp
next
  case (Cons sh shs)
  let ?a = "assemble_shell n ustart sh a"
  from Cons.prems(2) have "uniform_shell sh" and us: "list_all uniform_shell shs"
    by simp_all
  then have u: "labels_of sh = replicate (si_nprimitive sh) (si_l sh)"
    by (simp add: uniform_shell_def)
  have new: "labelled_by_am U (GaussianECPShell_ctor (si_l sh) (si_nprimitive sh)
        (ustart + atom_nprim a) (ustart + atom_nprim a) (ustart + atom_nprim a)
        (ustart + atom_nprim a) (int n) (xyz_ptr a) (bf_count a))"
    unfolding labelled_by_am_def list_all_iff
  proof
    fix k
    assume "k \<in> set [0..<gs_nprimitive (GaussianECPShell_ctor (si_l sh) (si_nprimitive sh)
        (ustart + atom_nprim a) (ustart + atom_nprim a) (ustart + atom_nprim a)
        (ustart + atom_nprim a) (int n) (xyz_ptr a) (bf_count a))]"
    then have k: "k < si_nprimitive sh"
      by (simp add: GaussianECPShell_ctor_def)
    then have "k < length (shell_labels (sh # shs))"
      by (simp add: shell_labels_Cons)
    from Cons.prems(3) [OF this] k
    have "U ! (ustart + atom_nprim a + k) = si_l sh"
      by (simp add: shell_labels_Cons nth_append u)
    then show "U ! (gs_sub_l (GaussianECPShell_ctor (si_l sh) (si_nprimitive sh)
        (ustart + atom_nprim a) (ustart + atom_nprim a) (ustart + atom_nprim a)
        (ustart + atom_nprim a) (int n) (xyz_ptr a) (bf_count a)) + k)
        = gs_l (GaussianECPShell_ctor (si_l sh) (si_nprimitive sh)
        (ustart + atom_nprim a) (ustart + atom_nprim a) (ustart + atom_nprim a)
        (ustart + atom_nprim a) (int n) (xyz_ptr a) (bf_count a))"
      by (simp add: GaussianECPShell_ctor_def)
  qed
  have 1: "list_all (labelled_by_am U) (shells (bs ?a))"
    using Cons.prems(1) new by (simp add: assemble_shell_fields)
  have 3: "U ! (ustart + atom_nprim ?a + k) = shell_labels shs ! k"
    if "k < length (shell_labels shs)" for k
  proof -
    from that have "si_nprimitive sh + k < length (shell_labels (sh # shs))"
      by (simp add: shell_labels_Cons)
    from Cons.prems(3) [OF this] show ?thesis
      by (simp add: assemble_shell_fields shell_labels_Cons nth_append add.assoc)
  qed
  from Cons.IH [OF 1 us 3] show ?case by simp
qed

lemma assemble_atom_unfold:
  fixes a :: assembly and mol :: Molecule and n :: nat and basistype :: string
    and m :: shell_map and u :: unique_primitives
  defines "basis \<equiv> basisset (atom_entry mol n) basistype"
    and "lbl \<equiv> label (atom_entry mol n)"
  defines "a1 \<equiv> a\<lparr>bs := (bs a)\<lparr>center_to_nshell := center_to_nshell (bs a)
                                    @ [length (map_at2 [] m basis lbl)],
                                center_to_shell := center_to_shell (bs a) @ [shell_count a]\<rparr>,
                   atom_nprim := 0\<rparr>"
  defines "a2 \<equiv> fold (assemble_shell n (map_at2 0 (primitive_start u) basis lbl))
                   (map_at2 [] m basis lbl) a1"
  shows "assemble_atom basistype mol m u n a =
     (if range_mismatch u basistype mol m n then Inl nprimitive_error
      else Inr (a2\<lparr>bs := (bs a2)\<lparr>xyz := xyz (bs a2)
                        @ [fst (coordinates (atom_entry mol n)),
                           fst (snd (coordinates (atom_entry mol n))),
                           snd (snd (coordinates (atom_entry mol n)))]\<rparr>,
                   xyz_ptr := xyz_ptr a2 + 3\<rparr>))"
proof -
  have n: "atom_nprim a2 = primitives_consumed m basis lbl"
    by (simp add: a2_def a1_def fold_assemble_shell_count primitives_consumed_def)
  show ?thesis
    unfolding assemble_atom_def Let_def fold_nth
    using n
    by (simp add: range_mismatch_def primitive_range_def nprimitive_error_def
        a2_def a1_def basis_def lbl_def split: prod.splits)
qed

lemma assemble_atoms_throws:
  "\<exists>n \<in> set todo. range_mismatch u basistype mol m n \<Longrightarrow>
   assemble_atoms basistype mol m u todo a = Inl nprimitive_error"
proof (induction todo arbitrary: a)
  case Nil
  then show ?case by simp
next
  case (Cons n todo)
  show ?case
  proof (cases "range_mismatch u basistype mol m n")
    case True
    then show ?thesis by (simp add: assemble_atom_unfold)
  next
    case False
    with Cons.prems have "\<exists>n \<in> set todo. range_mismatch u basistype mol m n" by simp
    from Cons.IH [OF this] False show ?thesis
      by (simp add: assemble_atom_unfold)
  qed
qed

lemma assemble_atoms_returns:
  "\<not> (\<exists>n \<in> set todo. range_mismatch u basistype mol m n) \<Longrightarrow>
   \<exists>a'. assemble_atoms basistype mol m u todo a = Inr a'"
proof (induction todo arbitrary: a)
  case Nil
  then show ?case by simp
next
  case (Cons n todo)
  then have n: "\<not> range_mismatch u basistype mol m n"
    and r: "\<not> (\<exists>n \<in> set todo. range_mismatch u basistype mol m n)"
    by simp_all
  from Cons.IH [OF r] n show ?case
    by (simp add: assemble_atom_unfold)
qed

lemma ECPBasisSet_ctor_unfold:
  "ECPBasisSet_ctor basistype mol m =
     (case assemble_atoms basistype mol m (store_unique_primitives m) [0..<natom mol]
             (assembly_start basistype mol m) of
        Inl e \<Rightarrow> Inl e
      | Inr a \<Rightarrow> Inr (bs a))"
  by (simp add: ECPBasisSet_ctor_def assembly_start_def Let_def)

lemma no_range_mismatch:
  assumes "stored u (map_at2 [] m)"
  shows "\<not> range_mismatch u basistype mol m n"
proof -
  from assms have "map_at2 0 (primitive_start u) b l + length (shell_labels (map_at2 [] m b l))
      = map_at2 0 (primitive_end u) b l" for b l
    by (simp add: stored_def)
  from this [symmetric] show ?thesis
    by (simp add: range_mismatch_def primitive_range_def primitives_consumed_def
        length_shell_labels)
qed

lemma no_count_mismatch: "shell_map_ok m \<Longrightarrow> \<not> count_mismatch basistype mol m n"
  using no_range_mismatch [OF store_unique_primitives_stored, of m basistype mol n]
  by (simp add: count_mismatch_def range_mismatch_def)

text \<open>
  Claim C6. While the ECP basis set is assembled, if for some atom the number of primitives
  consumed by its shells differs from the size \<open>uend - ustart\<close> of the range recorded for
  its (basis, label) key, the construction fails with an exception and returns no basis set;
  if the counts agree for every atom, the construction returns a basis set. On a shell map
  whose keys are distinct, as those of a \<open>std::map\<close> are, the counts agree for every atom.
\<close>

theorem ECPBasisSet_ctor_count_check:
  "(if \<exists>n < natom mol. count_mismatch basistype mol m n
    then ECPBasisSet_ctor basistype mol m = Inl nprimitive_error
    else \<exists>b. ECPBasisSet_ctor basistype mol m = Inr b) \<and>
   (shell_map_ok m \<longrightarrow> (\<forall>n. \<not> count_mismatch basistype mol m n))"
proof
  have eq: "count_mismatch basistype mol m n
      = range_mismatch (store_unique_primitives m) basistype mol m n" for n
    by (simp add: count_mismatch_def range_mismatch_def)
  show "if \<exists>n < natom mol. count_mismatch basistype mol m n
    then ECPBasisSet_ctor basistype mol m = Inl nprimitive_error
    else \<exists>b. ECPBasisSet_ctor basistype mol m = Inr b"
  proof (cases "\<exists>n < natom mol. count_mismatch basistype mol m n")
    case True
    then have "\<exists>n \<in> set [0..<natom mol].
        range_mismatch (store_unique_primitives m) basistype mol m n"
      by (auto simp: eq)
    from assemble_atoms_throws [OF this] True show ?thesis
      by (simp add: ECPBasisSet_ctor_unfold)
  next
    case False
    then have "\<not> (\<exists>n \<in> set [0..<natom mol].
        range_mismatch (store_unique_primitives m) basistype mol m n)"
      by (auto simp: eq)
    from assemble_atoms_returns [OF this, of "assembly_start basistype mol m"]
    obtain a' where "assemble_atoms basistype mol m (store_unique_primitives m)
        [0..<natom mol] (assembly_start basistype mol m) = Inr a'" ..
    with False show ?thesis
      by (simp add: ECPBasisSet_ctor_unfold)
  qed
  show "shell_map_ok m \<longrightarrow> (\<forall>n. \<not> count_mismatch basistype mol m n)"
    by (simp add: no_count_mismatch)
qed

subsection \<open>Reading the structured input\<close>

lemma fold_snoc_map: "fold (\<lambda>x vec. vec @ [f x]) xs acc = acc @ map f xs"
  by (induction xs arbitrary: acc) simp_all

lemma read_atom_fields:
  "mol_st (read_atom base nm ky ai st) =
     set_shell_by_label (atomlabel ai) (hash ai) ky (mol_st st)"
  "basis_atom_ncore (read_atom base nm ky ai st) =
     map_assign2 nm (atomlabel ai) (ncore ai) (basis_atom_ncore st)"
  "basis_atom_shell (read_atom base nm ky ai st) =
     map_assign2 nm (atomlabel ai) (map (read_shell base) (atomshells ai)) (basis_atom_shell st)"
  by (simp_all add: read_atom_def Let_def fold_snoc_map)

lemma fold_read_atom_fields:
  "mol_st (fold (read_atom base nm ky) ais st) =
     fold (\<lambda>ai. set_shell_by_label (atomlabel ai) (hash ai) ky) ais (mol_st st) \<and>
   basis_atom_ncore (fold (read_atom base nm ky) ais st) =
     fold (\<lambda>ai. map_assign2 nm (atomlabel ai) (ncore ai)) ais (basis_atom_ncore st) \<and>
   basis_atom_shell (fold (read_atom base nm ky) ais st) =
     fold (\<lambda>ai. map_assign2 nm (atomlabel ai) (map (read_shell base) (atomshells ai))) ais
       (basis_atom_shell st)"
  by (induction ais arbitrary: st) (simp_all add: read_atom_fields)

lemma fold_set_shell_by_label:
  "calls (fold (\<lambda>ai. set_shell_by_label (atomlabel ai) (hash ai) ky) ais mol) =
     calls mol @ map (\<lambda>ai. Set_shell_by_label (atomlabel ai) (hash ai) ky) ais \<and>
   map label (atoms (fold (\<lambda>ai. set_shell_by_label (atomlabel ai) (hash ai) ky) ais mol))
     = map label (atoms mol) \<and>
   map Z (atoms (fold (\<lambda>ai. set_shell_by_label (atomlabel ai) (hash ai) ky) ais mol))
     = map Z (atoms mol) \<and>
   map basissets (atoms (fold (\<lambda>ai. set_shell_by_label (atomlabel ai) (hash ai) ky) ais mol))
     = map basissets (atoms mol)"
proof (induction ais arbitrary: mol)
  case Nil
  show ?case by simp
next
  case (Cons ai ais)
  have step: "calls (set_shell_by_label l h ky mol) = calls mol @ [Set_shell_by_label l h ky]"
    "map label (atoms (set_shell_by_label l h ky mol)) = map label (atoms mol)"
    "map Z (atoms (set_shell_by_label l h ky mol)) = map Z (atoms mol)"
    "map basissets (atoms (set_shell_by_label l h ky mol)) = map basissets (atoms mol)"
    for l h
    by (simp_all add: set_shell_by_label_def comp_def)
  show ?case
    by (simp add: Cons.IH step)
qed

subsection \<open>Modifying the nuclear charges\<close>

lemma adjust_charge_step:
  assumes "k < length (atoms mol)"
  shows "adjust_charge ncm k (adjusted ncm k mol) = adjusted ncm (Suc k) mol"
proof -
  let ?m = "adjusted ncm k mol"
  have len: "length (atoms ?m) = length (atoms mol)"
    by (simp add: adjusted_def)
  have at: "atoms ?m ! k = atoms mol ! k"
    using assms by (simp add: adjusted_def)
  have b: "basis_on_atom ?m k = basis_on_atom mol k"
    by (simp add: basis_on_atom_def atom_entry_def at)
  have nth: "atoms ?m ! i = (if i < k
                then (atoms mol ! i)\<lparr>Z := new_charge ncm mol i\<rparr>
                else atoms mol ! i)" if "i < length (atoms mol)" for i
    using that by (simp add: adjusted_def)
  have atoms: "(atoms ?m)[k := (atoms mol ! k)\<lparr>Z := new_charge ncm mol k\<rparr>] =
      map (\<lambda>i. if i < Suc k
                then (atoms mol ! i)\<lparr>Z := new_charge ncm mol i\<rparr>
                else atoms mol ! i) [0..<length (atoms mol)]"
  proof (rule nth_equalityI)
    show "length ((atoms ?m)[k := (atoms mol ! k)\<lparr>Z := new_charge ncm mol k\<rparr>]) =
      length (map (\<lambda>i. if i < Suc k
                then (atoms mol ! i)\<lparr>Z := new_charge ncm mol i\<rparr>
                else atoms mol ! i) [0..<length (atoms mol)])"
      by (simp add: len)
  next
    fix i
    assume "i < length ((atoms ?m)[k := (atoms mol ! k)\<lparr>Z := new_charge ncm mol k\<rparr>])"
    then have i: "i < length (atoms mol)" by (simp add: len)
    show "(atoms ?m)[k := (atoms mol ! k)\<lparr>Z := new_charge ncm mol k\<rparr>] ! i =
      map (\<lambda>i. if i < Suc k
                then (atoms mol ! i)\<lparr>Z := new_charge ncm mol i\<rparr>
                else atoms mol ! i) [0..<length (atoms mol)] ! i"
    proof (cases "i = k")
      case True
      with i show ?thesis by (simp add: len)
    next
      case False
      with i nth [OF i] show ?thesis by (simp add: less_Suc_eq)
    qed
  qed
  have calls: "calls ?m = calls mol @ map (\<lambda>i. Set_nuclear_charge i (new_charge ncm mol i)) [0..<k]"
    by (simp add: adjusted_def)
  have "adjust_charge ncm k ?m =
      ?m\<lparr>atoms := (atoms ?m)[k := (atoms mol ! k)\<lparr>Z := new_charge ncm mol k\<rparr>],
         calls := calls ?m @ [Set_nuclear_charge k (new_charge ncm mol k)]\<rparr>"
    unfolding adjust_charge_def Let_def set_nuclear_charge_def atom_entry_def b at new_charge_def ..
  also have "\<dots> = adjusted ncm (Suc k) mol"
    unfolding atoms calls by (simp add: adjusted_def)
  finally show ?thesis .
qed

lemma fold_adjust_charge:
  "k \<le> length (atoms mol) \<Longrightarrow> fold (adjust_charge ncm) [0..<k] mol = adjusted ncm k mol"
proof (induction k)
  case 0
  show ?case by (simp add: adjusted_def map_nth)
next
  case (Suc k)
  then show ?case by (simp add: adjust_charge_step)
qed

subsection \<open>The molecule after construct_ecp_from_pydict\<close>

lemma prepared_fields:
  "calls (prepared mol pybs) =
     calls mol @ [Set_basis_all_atoms (py_name pybs) (py_key pybs)]
       @ map (\<lambda>ai. Set_shell_by_label (atomlabel ai) (hash ai) (py_key pybs)) (ecp_shell_map pybs)
       @ [Update_geometry]"
  "length (atoms (prepared mol pybs)) = length (atoms mol)"
  "n < length (atoms mol) \<Longrightarrow> Z (atoms (prepared mol pybs) ! n) = Z (atoms mol ! n)"
  "n < length (atoms mol) \<Longrightarrow> label (atoms (prepared mol pybs) ! n) = label (atoms mol ! n)"
  "n < length (atoms mol) \<Longrightarrow>
     basis_on_atom (prepared mol pybs) n
       = basis_on_atom (set_basis_all_atoms (py_name pybs) (py_key pybs) mol) n"
proof -
  let ?m0 = "set_basis_all_atoms (py_name pybs) (py_key pybs) mol"
  let ?m1 = "fold (\<lambda>ai. set_shell_by_label (atomlabel ai) (hash ai) (py_key pybs))
          (ecp_shell_map pybs) ?m0"
  note f = fold_set_shell_by_label [of "py_key pybs" "ecp_shell_map pybs" ?m0]
  have p: "atoms (prepared mol pybs) = atoms ?m1" "calls (prepared mol pybs) = calls ?m1 @ [Update_geometry]"
    by (simp_all add: prepared_def update_geometry_def)
  have l0: "length (atoms ?m0) = length (atoms mol)"
    by (simp add: set_basis_all_atoms_def)
  from f have "length (map label (atoms ?m1)) = length (map label (atoms ?m0))" by simp
  then have l1: "length (atoms ?m1) = length (atoms mol)" by (simp add: l0)
  show "calls (prepared mol pybs) =
     calls mol @ [Set_basis_all_atoms (py_name pybs) (py_key pybs)]
       @ map (\<lambda>ai. Set_shell_by_label (atomlabel ai) (hash ai) (py_key pybs)) (ecp_shell_map pybs)
       @ [Update_geometry]"
    using f by (simp add: p set_basis_all_atoms_def)
  show "length (atoms (prepared mol pybs)) = length (atoms mol)"
    by (simp add: p l1)
  {
    assume n: "n < length (atoms mol)"
    have "Z (atoms ?m1 ! n) = map Z (atoms ?m1) ! n" using n l1 by simp
    also have "\<dots> = map Z (atoms ?m0) ! n" using f by simp
    also have "\<dots> = Z (atoms mol ! n)" using n by (simp add: set_basis_all_atoms_def)
    finally show "Z (atoms (prepared mol pybs) ! n) = Z (atoms mol ! n)" by (simp add: p)
    have "label (atoms ?m1 ! n) = map label (atoms ?m1) ! n" using n l1 by simp
    also have "\<dots> = map label (atoms ?m0) ! n" using f by simp
    also have "\<dots> = label (atoms mol ! n)" using n by (simp add: set_basis_all_atoms_def)
    finally show "label (atoms (prepared mol pybs) ! n) = label (atoms mol ! n)" by (simp add: p)
    have "basissets (atoms ?m1 ! n) = map basissets (atoms ?m1) ! n" using n l1 by simp
    also have "\<dots> = map basissets (atoms ?m0) ! n" using f by simp
    also have "\<dots> = basissets (atoms ?m0 ! n)" using n l0 by simp
    finally show "basis_on_atom (prepared mol pybs) n = basis_on_atom ?m0 n"
      by (simp add: basis_on_atom_def atom_entry_def basisset_def p)
  }
qed

lemma construct_unfold:
  assumes "ecp_shell_map pybs \<noteq> []"
  shows "construct_ecp_from_pydict base mol pybs fp =
     (let mol' = adjusted (ecp_ncore_map pybs) (natom mol) (prepared mol pybs)
      in case ECPBasisSet_ctor (py_key pybs) mol' (ecp_shells base pybs) of
           Inl e \<Rightarrow> (mol', Inl e)
         | Inr b \<Rightarrow> (mol', Inr (b\<lparr>name := py_name pybs, key := py_key pybs,
                                   target := py_blend pybs\<rparr>)))"
proof -
  let ?st = "fold (read_atom base (py_name pybs) (py_key pybs)) (ecp_shell_map pybs)
      \<lparr>mol_st = set_basis_all_atoms (py_name pybs) (py_key pybs) mol,
       basis_atom_ncore = [], basis_atom_shell = []\<rparr>"
  note f = fold_read_atom_fields [of base "py_name pybs" "py_key pybs" "ecp_shell_map pybs"
      "\<lparr>mol_st = set_basis_all_atoms (py_name pybs) (py_key pybs) mol,
        basis_atom_ncore = [], basis_atom_shell = []\<rparr>"]
  have m: "update_geometry (mol_st ?st) = prepared mol pybs"
    and n: "basis_atom_ncore ?st = ecp_ncore_map pybs"
    and s: "basis_atom_shell ?st = ecp_shells base pybs"
    using f by (simp_all add: prepared_def ecp_ncore_map_def ecp_shells_def)
  have len: "natom (prepared mol pybs) = natom mol"
    by (simp add: natom_def prepared_fields)
  have adj: "fold (adjust_charge (ecp_ncore_map pybs)) [0..<natom (prepared mol pybs)]
      (prepared mol pybs) = adjusted (ecp_ncore_map pybs) (natom mol) (prepared mol pybs)"
    using fold_adjust_charge [of "natom mol" "prepared mol pybs" "ecp_ncore_map pybs"]
    by (simp add: len) (simp add: natom_def prepared_fields)
  show ?thesis
    unfolding construct_ecp_from_pydict_def Let_def m n s adj
    using assms by simp
qed

lemma construct_fst:
  assumes "ecp_shell_map pybs \<noteq> []"
  shows "fst (construct_ecp_from_pydict base mol pybs fp) =
     adjusted (ecp_ncore_map pybs) (natom mol) (prepared mol pybs)"
  unfolding construct_unfold [OF assms] Let_def
  by (simp split: sum.splits)

lemma int32_fits: "fits_int32 x \<Longrightarrow> int32 x = x"
  by (simp add: fits_int32_def int32_def)

lemma int32_wraps: "int32 (79 - (- 2147483648)) = - 2147483569"
  by (simp add: int32_def)

lemma fold_assign_lookup:
  "map_at2 d (fold (\<lambda>ai. map_assign2 nm (f ai) (g ai)) ais m) nm l =
     (case map_of (rev (map (\<lambda>ai. (f ai, g ai)) ais)) l of
        Some v \<Rightarrow> v
      | None \<Rightarrow> map_at2 d m nm l)"
proof (induction ais arbitrary: m)
  case Nil
  show ?case by simp
next
  case (Cons a ais)
  have "map_at2 d (fold (\<lambda>ai. map_assign2 nm (f ai) (g ai)) (a # ais) m) nm l =
      (case map_of (rev (map (\<lambda>ai. (f ai, g ai)) ais)) l of
        Some v \<Rightarrow> v
      | None \<Rightarrow> map_at2 d (map_assign2 nm (f a) (g a) m) nm l)"
    by (simp add: Cons.IH)
  also have "\<dots> = (case map_of (rev (map (\<lambda>ai. (f ai, g ai)) (a # ais))) l of
        Some v \<Rightarrow> v
      | None \<Rightarrow> map_at2 d m nm l)"
    by (simp add: map_at2_map_assign2 map_add_def split: option.splits)
  finally show ?case .
qed

lemma ncore_lookup:
  "map_at2 0 (ecp_ncore_map pybs) (py_name pybs) lbl = core_electron_count pybs lbl"
proof -
  have "map_at2 (0::int) [] (py_name pybs) lbl = 0"
    by (simp add: map_at2_def)
  then show ?thesis
    by (simp add: ecp_ncore_map_def core_electron_count_def fold_assign_lookup
        split: option.splits)
qed

lemma construct_new_charge:
  assumes "ecp_shell_map pybs \<noteq> []" and "n < natom mol"
  shows "Z (atom_entry (fst (construct_ecp_from_pydict base mol pybs fp)) n) =
     new_charge (ecp_ncore_map pybs) (prepared mol pybs) n"
  using assms(2)
  by (simp add: construct_fst [OF assms(1)] adjusted_def prepared_fields natom_def
      atom_entry_def)

lemma construct_calls:
  assumes "ecp_shell_map pybs \<noteq> []"
  shows "calls (fst (construct_ecp_from_pydict base mol pybs fp)) =
     calls mol @ [Set_basis_all_atoms (py_name pybs) (py_key pybs)]
       @ map (\<lambda>ai. Set_shell_by_label (atomlabel ai) (hash ai) (py_key pybs)) (ecp_shell_map pybs)
       @ [Update_geometry]
       @ map (\<lambda>n. Set_nuclear_charge n
                  (Z (atom_entry (fst (construct_ecp_from_pydict base mol pybs fp)) n)))
           [0..<natom mol]"
proof -
  have "map (\<lambda>i. Set_nuclear_charge i (new_charge (ecp_ncore_map pybs) (prepared mol pybs) i))
        [0..<natom mol]
      = map (\<lambda>n. Set_nuclear_charge n
                  (Z (atom_entry (fst (construct_ecp_from_pydict base mol pybs fp)) n)))
           [0..<natom mol]"
    by (rule map_cong) (simp_all add: construct_new_charge [OF assms])
  then show ?thesis
    by (simp add: construct_fst [OF assms] adjusted_def prepared_fields)
qed

lemma construct_natom:
  assumes "ecp_shell_map pybs \<noteq> []"
  shows "natom (fst (construct_ecp_from_pydict base mol pybs fp)) = natom mol"
  by (simp add: construct_fst [OF assms] adjusted_def prepared_fields natom_def)

lemma construct_charges:
  assumes "ecp_shell_map pybs \<noteq> []" and "n < natom mol"
    and "on_ecp_basis mol pybs n"
    and "fits_int32 (Z (atom_entry mol n) - core_electron_count pybs (label (atom_entry mol n)))"
  shows "Z (atom_entry (fst (construct_ecp_from_pydict base mol pybs fp)) n)
      = Z (atom_entry mol n) - core_electron_count pybs (label (atom_entry mol n))"
proof -
  from assms(2) have n: "n < length (atoms mol)"
    by (simp add: natom_def)
  from assms(3) have "basis_on_atom (prepared mol pybs) n = py_name pybs"
    by (simp add: prepared_fields(5) [OF n] on_ecp_basis_def)
  then have "new_charge (ecp_ncore_map pybs) (prepared mol pybs) n =
      int32 (Z (atom_entry mol n) - core_electron_count pybs (label (atom_entry mol n)))"
    using n by (simp add: new_charge_def prepared_fields ncore_lookup atom_entry_def)
  with assms(4) show ?thesis
    by (simp add: construct_new_charge [OF assms(1,2)] int32_fits)
qed

subsection \<open>The shell map read from the structured input\<close>

lemma map_at_cases: "map_at d m k = d \<or> (k, map_at d m k) \<in> set m"
  by (auto simp: map_at_def split: option.splits dest: map_of_SomeD)

lemma list_all_map_assign:
  "P (k, v) \<Longrightarrow> list_all P m \<Longrightarrow> list_all P (map_assign k v m)"
  using set_map_assign [of k v m] by (auto simp: list_all_iff)

lemma list_all_map_at:
  "list_all P m \<Longrightarrow> Q [] \<Longrightarrow> (\<And>e. P e \<Longrightarrow> Q (snd e)) \<Longrightarrow> Q (map_at [] m k)"
  using map_at_cases [of "[]" m k] by (auto simp: list_all_iff)

lemma shell_map_ok_assign:
  assumes "shell_map_ok m"
  shows "shell_map_ok (map_assign2 a b v m)"
proof -
  from assms have o: "map_ok m" and i: "list_all (\<lambda>e. map_ok (snd e)) m"
    by (simp_all add: shell_map_ok_def)
  have "map_ok (map_at [] m a)"
    by (rule list_all_map_at [OF i]) (simp_all add: map_ok_def)
  then have "map_ok (map_assign b v (map_at [] m a))"
    by (rule map_ok_map_assign)
  with i have "list_all (\<lambda>e. map_ok (snd e)) (map_assign2 a b v m)"
    unfolding map_assign2_def by (intro list_all_map_assign) simp_all
  with map_ok_map_assign [OF o] show ?thesis
    by (simp add: shell_map_ok_def map_assign2_def)
qed

lemma all_uniform_assign:
  assumes "all_uniform m" and "list_all uniform_shell v"
  shows "all_uniform (map_assign2 a b v m)"
proof -
  let ?P = "\<lambda>e'. list_all uniform_shell (snd e')"
  from assms(1) have i: "list_all (\<lambda>e. list_all ?P (snd e)) m"
    by (simp add: all_uniform_def)
  have "list_all ?P (map_at [] m a)"
    by (rule list_all_map_at [OF i]) simp_all
  with assms(2) have "list_all ?P (map_assign b v (map_at [] m a))"
    by (intro list_all_map_assign) simp_all
  with i show ?thesis
    unfolding all_uniform_def map_assign2_def by (intro list_all_map_assign) simp_all
qed

lemma all_uniform_lookup:
  assumes "all_uniform m"
  shows "list_all uniform_shell (map_at2 [] m b l)"
proof -
  let ?P = "\<lambda>e'. list_all uniform_shell (snd e')"
  from assms have i: "list_all (\<lambda>e. list_all ?P (snd e)) m"
    by (simp add: all_uniform_def)
  have "list_all ?P (map_at [] m b)"
    by (rule list_all_map_at [OF i]) simp_all
  then show ?thesis
    unfolding map_at2_def by (rule list_all_map_at) simp_all
qed

lemma read_shell_labels:
  "si_sub_l (read_shell base sh) = replicate (length (snd sh)) (fst sh) \<and>
   si_l (read_shell base sh) = fst sh \<and>
   si_nprimitive (read_shell base sh) = length (snd sh)"
  by (simp add: read_shell_fields ECPShellInfo_ctor_def si_nprimitive_def)

lemma read_shell_uniform: "uniform_shell (read_shell base sh)"
proof -
  have "map (\<lambda>p. replicate n x ! p) [0..<n] = replicate n x" for n and x :: int
    using map_nth [of "replicate n x"] by simp
  then show ?thesis
    by (simp add: uniform_shell_def labels_of_def read_shell_labels)
qed

lemma ecp_shells_ok: "shell_map_ok (ecp_shells base pybs) \<and> all_uniform (ecp_shells base pybs)"
proof -
  have "shell_map_ok m \<and> all_uniform m \<Longrightarrow>
      shell_map_ok (fold (\<lambda>ai. map_assign2 nm (atomlabel ai)
                  (map (read_shell base) (atomshells ai))) ais m) \<and>
      all_uniform (fold (\<lambda>ai. map_assign2 nm (atomlabel ai)
                  (map (read_shell base) (atomshells ai))) ais m)" for m nm ais
  proof (induction ais arbitrary: m)
    case Nil
    then show ?case by simp
  next
    case (Cons ai ais)
    have "list_all uniform_shell (map (read_shell base) (atomshells ai))"
      by (simp add: list_all_iff read_shell_uniform)
    with Cons.prems
    have "shell_map_ok (map_assign2 nm (atomlabel ai) (map (read_shell base) (atomshells ai)) m)
        \<and> all_uniform (map_assign2 nm (atomlabel ai) (map (read_shell base) (atomshells ai)) m)"
      by (simp add: shell_map_ok_assign all_uniform_assign)
    from Cons.IH [OF this] show ?case by simp
  qed
  moreover have "shell_map_ok [] \<and> all_uniform []"
    by (simp add: shell_map_ok_def all_uniform_def map_ok_def)
  ultimately show ?thesis
    unfolding ecp_shells_def by blast
qed

subsection \<open>The shells of the assembled basis set\<close>

lemma assemble_atom_labelled:
  assumes st: "stored u (map_at2 [] m)" and un: "all_uniform m"
    and inv: "list_all (labelled_by_am (usubls_v u)) (shells (bs a))"
  shows "\<exists>a'. assemble_atom basistype mol m u n a = Inr a' \<and>
      list_all (labelled_by_am (usubls_v u)) (shells (bs a')) \<and>
      usubls (bs a') = usubls (bs a)"
proof -
  let ?basis = "basisset (atom_entry mol n) basistype"
  let ?lbl = "label (atom_entry mol n)"
  let ?shs = "map_at2 [] m ?basis ?lbl"
  let ?ustart = "map_at2 0 (primitive_start u) ?basis ?lbl"
  let ?a1 = "a\<lparr>bs := (bs a)\<lparr>center_to_nshell := center_to_nshell (bs a) @ [length ?shs],
                              center_to_shell := center_to_shell (bs a) @ [shell_count a]\<rparr>,
                 atom_nprim := 0\<rparr>"
  have content: "usubls_v u ! (?ustart + atom_nprim ?a1 + k) = shell_labels ?shs ! k"
    if "k < length (shell_labels ?shs)" for k
    using st that by (simp add: stored_def)
  have inv1: "list_all (labelled_by_am (usubls_v u)) (shells (bs ?a1))"
    using inv by simp
  note lab = fold_assemble_shell_labelled
    [of "usubls_v u" ?a1 ?shs ?ustart n, OF inv1 all_uniform_lookup [OF un] content]
  show ?thesis
    unfolding assemble_atom_unfold
    using lab no_range_mismatch [OF st, of basistype mol n]
    by (simp add: fold_assemble_shell_usubls)
qed

lemma assemble_atoms_labelled:
  assumes st: "stored u (map_at2 [] m)" and un: "all_uniform m"
  shows "list_all (labelled_by_am (usubls_v u)) (shells (bs a)) \<Longrightarrow>
     \<exists>a'. assemble_atoms basistype mol m u todo a = Inr a' \<and>
      list_all (labelled_by_am (usubls_v u)) (shells (bs a')) \<and>
      usubls (bs a') = usubls (bs a)"
proof (induction todo arbitrary: a)
  case Nil
  then show ?case by simp
next
  case (Cons n todo)
  from assemble_atom_labelled [OF st un Cons.prems, of basistype mol n]
  obtain a1 where 1: "assemble_atom basistype mol m u n a = Inr a1"
    and 2: "list_all (labelled_by_am (usubls_v u)) (shells (bs a1))"
    and 3: "usubls (bs a1) = usubls (bs a)"
    by blast
  from Cons.IH [OF 2] 1 3 show ?case by simp
qed

lemma count_frame:
  "shells (fold (count_atom basistype mol m) todo b) = shells b \<and>
   n_uprimitive (fold (count_atom basistype mol m) todo b) = n_uprimitive b"
proof -
  have shell: "shells (fold count_shell shs b) = shells b \<and>
      n_uprimitive (fold count_shell shs b) = n_uprimitive b" for shs b
    by (induction shs arbitrary: b) (simp_all add: count_shell_def Let_def)
  show ?thesis
    by (induction todo arbitrary: b) (simp_all add: count_atom_def Let_def shell)
qed

lemma assembly_start_fields:
  assumes "stored (store_unique_primitives m) S"
  shows "shells (bs (assembly_start basistype mol m)) = []"
    and "usubls (bs (assembly_start basistype mol m)) = usubls_v (store_unique_primitives m)"
proof -
  from assms have "n_uprim (store_unique_primitives m)
      = length (usubls_v (store_unique_primitives m))"
    by (simp add: stored_def)
  then show "usubls (bs (assembly_start basistype mol m)) = usubls_v (store_unique_primitives m)"
    by (simp add: assembly_start_def Let_def count_frame map_nth)
  show "shells (bs (assembly_start basistype mol m)) = []"
    by (simp add: assembly_start_def Let_def count_frame)
qed

lemma ECPBasisSet_ctor_labelled:
  assumes "shell_map_ok m" and "all_uniform m"
  shows "\<exists>b. ECPBasisSet_ctor basistype mol m = Inr b \<and>
      list_all (labelled_by_am (usubls b)) (shells b)"
proof -
  let ?u = "store_unique_primitives m"
  have st: "stored ?u (map_at2 [] m)"
    by (rule store_unique_primitives_stored [OF assms(1)])
  note s = assembly_start_fields [OF st, of basistype mol]
  have "list_all (labelled_by_am (usubls_v ?u)) (shells (bs (assembly_start basistype mol m)))"
    by (simp add: s)
  from assemble_atoms_labelled [OF st assms(2) this, of basistype mol "[0..<natom mol]"]
  show ?thesis
    by (auto simp: ECPBasisSet_ctor_unfold s)
qed

lemma evaluate_other_label:
  assumes "labelled_by_am (usubls b) sh" and "l \<noteq> gs_l sh"
  shows "evaluate b sh r l = Some 0"
proof -
  from assms have "\<forall>i \<in> set [0..<gs_nprimitive sh]. \<not> usubls b ! (gs_sub_l sh + i) = l"
    by (auto simp: labelled_by_am_def list_all_iff)
  then show ?thesis
    unfolding evaluate_def Let_def by (rule fold_skip)
qed

subsection \<open>Which shells are assembled\<close>

lemma fold_assemble_shell_shells:
  "map (\<lambda>sh. (gs_l sh, gs_nprimitive sh)) (shells (bs (fold (assemble_shell n us) shs a))) =
     map (\<lambda>sh. (gs_l sh, gs_nprimitive sh)) (shells (bs a))
       @ map (\<lambda>s. (si_l s, si_nprimitive s)) shs"
  by (induction shs arbitrary: a)
    (simp_all add: assemble_shell_fields GaussianECPShell_ctor_def)

lemma assemble_atom_shells:
  assumes "assemble_atom basistype mol m u n a = Inr a'"
  shows "map (\<lambda>sh. (gs_l sh, gs_nprimitive sh)) (shells (bs a')) =
     map (\<lambda>sh. (gs_l sh, gs_nprimitive sh)) (shells (bs a))
       @ map (\<lambda>s. (si_l s, si_nprimitive s))
           (map_at2 [] m (basisset (atom_entry mol n) basistype) (label (atom_entry mol n)))"
proof (cases "range_mismatch u basistype mol m n")
  case True
  with assms show ?thesis by (simp add: assemble_atom_unfold)
next
  case False
  with assms show ?thesis
    by (auto simp: assemble_atom_unfold fold_assemble_shell_shells)
qed

lemma assemble_atoms_shells:
  "assemble_atoms basistype mol m u todo a = Inr a' \<Longrightarrow>
   map (\<lambda>sh. (gs_l sh, gs_nprimitive sh)) (shells (bs a')) =
     map (\<lambda>sh. (gs_l sh, gs_nprimitive sh)) (shells (bs a))
       @ concat (map (\<lambda>n. map (\<lambda>s. (si_l s, si_nprimitive s))
           (map_at2 [] m (basisset (atom_entry mol n) basistype) (label (atom_entry mol n))))
           todo)"
proof (induction todo arbitrary: a)
  case Nil
  then show ?case by simp
next
  case (Cons n todo)
  from Cons.prems obtain a1 where 1: "assemble_atom basistype mol m u n a = Inr a1"
    and 2: "assemble_atoms basistype mol m u todo a1 = Inr a'"
    by (auto split: sum.splits)
  from Cons.IH [OF 2] assemble_atom_shells [OF 1] show ?case by simp
qed

lemma ECPBasisSet_ctor_shells:
  assumes "ECPBasisSet_ctor basistype mol m = Inr b"
  shows "map (\<lambda>sh. (gs_l sh, gs_nprimitive sh)) (shells b) =
     concat (map (\<lambda>n. map (\<lambda>s. (si_l s, si_nprimitive s))
           (map_at2 [] m (basisset (atom_entry mol n) basistype) (label (atom_entry mol n))))
           [0..<natom mol])"
proof -
  from assms obtain a' where a: "assemble_atoms basistype mol m (store_unique_primitives m)
      [0..<natom mol] (assembly_start basistype mol m) = Inr a'" and b: "b = bs a'"
    by (auto simp: ECPBasisSet_ctor_unfold split: sum.splits)
  have "shells (bs (assembly_start basistype mol m)) = []"
    by (simp add: assembly_start_def Let_def count_frame)
  with assemble_atoms_shells [OF a] b show ?thesis by simp
qed

lemma gold_shells: "ecp_shells base gold_ecp =
    [(''LANL2DZ'', [(''AU'', [read_shell base (0, [(1, 2, 0)]),
                             read_shell base (1, [(3, 4, 1), (5, 6, 2)])])])]"
  by (simp add: ecp_shells_def gold_ecp_def map_assign2_def)

lemma gold_prepared_atom:
  "natom (adjusted (ecp_ncore_map gold_ecp) (natom gold_atom) (prepared gold_atom gold_ecp)) = 1 \<and>
   label (atom_entry (adjusted (ecp_ncore_map gold_ecp) (natom gold_atom)
      (prepared gold_atom gold_ecp)) 0) = ''AU'' \<and>
   basisset (atom_entry (adjusted (ecp_ncore_map gold_ecp) (natom gold_atom)
      (prepared gold_atom gold_ecp)) 0) ''BASIS'' = ''LANL2DZ''"
  by (simp add: adjusted_def prepared_def natom_def atom_entry_def basisset_def gold_atom_def
      gold_ecp_def update_geometry_def set_shell_by_label_def set_basis_all_atoms_def)

lemma gold_basis_shells:
  assumes "snd (construct_ecp_from_pydict base gold_atom gold_ecp fp) = Inr b"
  shows "map (\<lambda>sh. (gs_l sh, gs_nprimitive sh)) (shells b) = [(0, 1), (1, 2)]"
proof -
  have ne: "ecp_shell_map gold_ecp \<noteq> []" and k: "py_key gold_ecp = ''BASIS''"
    by (simp_all add: gold_ecp_def)
  let ?mol = "adjusted (ecp_ncore_map gold_ecp) (natom gold_atom) (prepared gold_atom gold_ecp)"
  from assms obtain b' where c: "ECPBasisSet_ctor ''BASIS'' ?mol (ecp_shells base gold_ecp) = Inr b'"
    and b: "shells b = shells b'"
    by (auto simp: construct_unfold [OF ne] Let_def k split: sum.splits)
  show ?thesis
    unfolding b ECPBasisSet_ctor_shells [OF c]
    by (simp add: gold_prepared_atom gold_shells map_at2_def map_at_def read_shell_labels)
qed

subsection \<open>Nuclear charges and the order of the calls\<close>

lemma gold_facts:
  "ecp_shell_map gold_ecp \<noteq> []" "natom gold_atom = 1" "Z (atom_entry gold_atom 0) = 79"
  "label (atom_entry gold_atom 0) = ''AU''" "calls gold_atom = []"
  "core_electron_count gold_ecp ''AU'' = 60" "on_ecp_basis gold_atom gold_ecp 0"
  by (simp_all add: gold_ecp_def gold_atom_def natom_def atom_entry_def
      core_electron_count_def on_ecp_basis_def basis_on_atom_def basisset_def
      set_basis_all_atoms_def)

lemma gold_charge:
  "Z (atom_entry (fst (construct_ecp_from_pydict example_base gold_atom gold_ecp 0)) 0) = 19"
  using construct_charges [of gold_ecp 0 gold_atom example_base 0]
  by (simp add: gold_facts fits_int32_def)

lemma gold_calls:
  "calls (fst (construct_ecp_from_pydict example_base gold_atom gold_ecp 0)) =
     [Set_basis_all_atoms ''LANL2DZ'' ''BASIS'', Set_shell_by_label ''AU'' ''f00d'' ''BASIS'',
      Update_geometry, Set_nuclear_charge 0 19]"
  unfolding construct_calls [OF gold_facts(1)]
  by (simp add: gold_facts gold_charge) (simp add: gold_ecp_def)

text \<open>
  The loop reads the basis name of an atom under the role \<open>BASIS\<close>. When the input is
  attached under another role, no core-electron count is found and the charge stays as it is.
\<close>

lemma gold_other_role_keeps_charge:
  "core_electron_count gold_ecp_other_role ''AU'' = 60 \<and>
   \<not> on_ecp_basis gold_atom gold_ecp_other_role 0 \<and>
   Z (atom_entry (fst (construct_ecp_from_pydict example_base gold_atom gold_ecp_other_role 0)) 0)
     = 79"
proof -
  have ne: "ecp_shell_map gold_ecp_other_role \<noteq> []"
    by (simp add: gold_ecp_other_role_def gold_ecp_def)
  have n: "0 < natom gold_atom"
    by (simp add: gold_facts)
  have b: "basis_on_atom (prepared gold_atom gold_ecp_other_role) 0 = []"
    using n by (simp add: prepared_fields natom_def)
      (simp add: basis_on_atom_def set_basis_all_atoms_def gold_atom_def atom_entry_def
        basisset_def gold_ecp_other_role_def gold_ecp_def)
  have z: "Z (atoms (prepared gold_atom gold_ecp_other_role) ! 0) = 79"
    using n gold_facts(3) by (simp add: prepared_fields natom_def atom_entry_def)
  have m: "map_at2 (0::int) (ecp_ncore_map gold_ecp_other_role) [] lbl = 0" for lbl
    by (simp add: ecp_ncore_map_def gold_ecp_other_role_def gold_ecp_def map_at2_map_assign2)
      (simp add: map_at2_def)
  have "new_charge (ecp_ncore_map gold_ecp_other_role) (prepared gold_atom gold_ecp_other_role) 0
      = 79"
    by (simp add: new_charge_def b z m int32_def)
  then show ?thesis
    by (simp add: construct_new_charge [OF ne n])
      (simp add: core_electron_count_def on_ecp_basis_def basis_on_atom_def
        set_basis_all_atoms_def gold_atom_def atom_entry_def basisset_def
        gold_ecp_other_role_def gold_ecp_def)
qed

text \<open>
  Claim C7. In \<open>construct_ecp_from_pydict\<close>, every atom's nuclear charge should be set exactly
  once, to the old charge minus the core-electron count, before \<open>update_geometry\<close> is
  triggered. The source calls \<open>update_geometry\<close> first and modifies the charges afterwards:
  for one gold atom the molecule receives \<open>update_geometry\<close> and then the new charge 19.
\<close>

theorem construct_ecp_updates_geometry_first:
  "calls (fst (construct_ecp_from_pydict example_base gold_atom gold_ecp 0)) =
     [Set_basis_all_atoms ''LANL2DZ'' ''BASIS'', Set_shell_by_label ''AU'' ''f00d'' ''BASIS'',
      Update_geometry, Set_nuclear_charge 0 19] \<and>
   \<not> charges_before_update
       (calls (fst (construct_ecp_from_pydict example_base gold_atom gold_ecp 0)))"
  by (simp add: gold_calls is_charge_call_def)

text \<open>
  Claim C7, as the source has it. In \<open>construct_ecp_from_pydict\<close>, for a non-empty list of
  atom records, every atom's nuclear charge is set exactly once, and this happens after
  \<open>update_geometry\<close> is triggered: the molecule receives \<open>set_basis_all_atoms\<close>, one
  \<open>set_shell_by_label\<close> per atom record, \<open>update_geometry\<close>, and then one
  \<open>set_nuclear_charge\<close> per atom, in the order of the atoms, with the charge the atom has
  afterwards. That charge is the old charge minus the core-electron count of the record for
  the atom's label, for every atom carrying the basis name of the input and a difference
  that a 32-bit \<open>int\<close> holds.
\<close>

theorem construct_ecp_charges_after_update_geometry:
  assumes "ecp_shell_map pybs \<noteq> []"
  shows "calls (fst (construct_ecp_from_pydict base mol pybs fp)) =
       calls mol @ [Set_basis_all_atoms (py_name pybs) (py_key pybs)]
         @ map (\<lambda>ai. Set_shell_by_label (atomlabel ai) (hash ai) (py_key pybs))
             (ecp_shell_map pybs)
         @ [Update_geometry]
         @ map (\<lambda>n. Set_nuclear_charge n
                    (Z (atom_entry (fst (construct_ecp_from_pydict base mol pybs fp)) n)))
             [0..<natom mol] \<and>
     natom (fst (construct_ecp_from_pydict base mol pybs fp)) = natom mol \<and>
     (\<forall>n < natom mol.
        on_ecp_basis mol pybs n \<longrightarrow>
        fits_int32 (Z (atom_entry mol n) - core_electron_count pybs (label (atom_entry mol n))) \<longrightarrow>
        Z (atom_entry (fst (construct_ecp_from_pydict base mol pybs fp)) n)
          = Z (atom_entry mol n) - core_electron_count pybs (label (atom_entry mol n)))"
proof (intro conjI allI impI)
  show "calls (fst (construct_ecp_from_pydict base mol pybs fp)) =
       calls mol @ [Set_basis_all_atoms (py_name pybs) (py_key pybs)]
         @ map (\<lambda>ai. Set_shell_by_label (atomlabel ai) (hash ai) (py_key pybs))
             (ecp_shell_map pybs)
         @ [Update_geometry]
         @ map (\<lambda>n. Set_nuclear_charge n
                    (Z (atom_entry (fst (construct_ecp_from_pydict base mol pybs fp)) n)))
             [0..<natom mol]"
    by (rule construct_calls [OF assms])
  show "natom (fst (construct_ecp_from_pydict base mol pybs fp)) = natom mol"
    by (rule construct_natom [OF assms])
next
  fix n
  assume "n < natom mol" and "on_ecp_basis mol pybs n"
    and "fits_int32 (Z (atom_entry mol n) - core_electron_count pybs (label (atom_entry mol n)))"
  with assms show "Z (atom_entry (fst (construct_ecp_from_pydict base mol pybs fp)) n)
          = Z (atom_entry mol n) - core_electron_count pybs (label (atom_entry mol n))"
    by (rule construct_charges)
qed

theorem construct_ecp_charges_after_update_geometry_witness:
  "ecp_shell_map gold_ecp \<noteq> [] \<and>
   on_ecp_basis gold_atom gold_ecp 0 \<and>
   fits_int32 (Z (atom_entry gold_atom 0)
                 - core_electron_count gold_ecp (label (atom_entry gold_atom 0))) \<and>
   Z (atom_entry gold_atom 0) = 79 \<and>
   core_electron_count gold_ecp (label (atom_entry gold_atom 0)) = 60 \<and>
   natom (fst (construct_ecp_from_pydict example_base gold_atom gold_ecp 0)) = 1 \<and>
   Z (atom_entry (fst (construct_ecp_from_pydict example_base gold_atom gold_ecp 0)) 0) = 19 \<and>
   calls (fst (construct_ecp_from_pydict example_base gold_atom gold_ecp 0)) =
     [Set_basis_all_atoms ''LANL2DZ'' ''BASIS'', Set_shell_by_label ''AU'' ''f00d'' ''BASIS'',
      Update_geometry, Set_nuclear_charge 0 19]"
proof -
  have fits: "fits_int32 (Z (atom_entry gold_atom 0)
                 - core_electron_count gold_ecp (label (atom_entry gold_atom 0)))"
    by (simp add: gold_facts fits_int32_def)
  from construct_ecp_charges_after_update_geometry
    [OF gold_facts(1), of example_base gold_atom 0]
  have t: "calls (fst (construct_ecp_from_pydict example_base gold_atom gold_ecp 0)) =
       calls gold_atom @ [Set_basis_all_atoms (py_name gold_ecp) (py_key gold_ecp)]
         @ map (\<lambda>ai. Set_shell_by_label (atomlabel ai) (hash ai) (py_key gold_ecp))
             (ecp_shell_map gold_ecp)
         @ [Update_geometry]
         @ map (\<lambda>n. Set_nuclear_charge n
                    (Z (atom_entry (fst (construct_ecp_from_pydict example_base gold_atom
                                         gold_ecp 0)) n)))
             [0..<natom gold_atom]"
    and n: "natom (fst (construct_ecp_from_pydict example_base gold_atom gold_ecp 0)) = 1"
    and z: "Z (atom_entry (fst (construct_ecp_from_pydict example_base gold_atom gold_ecp 0)) 0)
        = 19"
    using fits by (simp_all add: gold_facts)
  have "calls (fst (construct_ecp_from_pydict example_base gold_atom gold_ecp 0)) =
     [Set_basis_all_atoms ''LANL2DZ'' ''BASIS'', Set_shell_by_label ''AU'' ''f00d'' ''BASIS'',
      Update_geometry, Set_nuclear_charge 0 19]"
    unfolding t by (simp add: gold_facts z) (simp add: gold_ecp_def)
  with fits n z show ?thesis
    by (simp add: gold_facts)
qed

subsection \<open>One label per shell\<close>

text \<open>
  Claim C10. Every shell record built by \<open>construct_ecp_from_pydict\<close> gives each of its
  primitives the angular momentum of the shell as its label. Consequently, for a non-empty
  list of atom records the construction returns a basis set, and for every shell of it
  \<open>evaluate(r, l)\<close> is 0 for every \<open>l\<close> other than the shell's angular momentum: this path
  never mixes labels within a shell.
\<close>

theorem construct_ecp_single_label:
  assumes "ecp_shell_map pybs \<noteq> []"
  shows "(\<forall>ai \<in> set (ecp_shell_map pybs). \<forall>sh \<in> set (atomshells ai).
            si_sub_l (read_shell base sh) = replicate (length (snd sh)) (fst sh) \<and>
            si_l (read_shell base sh) = fst sh \<and>
            si_nprimitive (read_shell base sh) = length (snd sh)) \<and>
         (\<exists>b. snd (construct_ecp_from_pydict base mol pybs fp) = Inr b \<and>
            (\<forall>sh \<in> set (shells b). \<forall>l. l \<noteq> gs_l sh \<longrightarrow> evaluate b sh r l = Some 0))"
proof
  show "\<forall>ai \<in> set (ecp_shell_map pybs). \<forall>sh \<in> set (atomshells ai).
            si_sub_l (read_shell base sh) = replicate (length (snd sh)) (fst sh) \<and>
            si_l (read_shell base sh) = fst sh \<and>
            si_nprimitive (read_shell base sh) = length (snd sh)"
    by (simp add: read_shell_labels)
next
  let ?mol = "adjusted (ecp_ncore_map pybs) (natom mol) (prepared mol pybs)"
  from ECPBasisSet_ctor_labelled [of "ecp_shells base pybs" "py_key pybs" ?mol] ecp_shells_ok
  obtain b where b: "ECPBasisSet_ctor (py_key pybs) ?mol (ecp_shells base pybs) = Inr b"
    and lab: "list_all (labelled_by_am (usubls b)) (shells b)"
    by blast
  let ?b = "b\<lparr>name := py_name pybs, key := py_key pybs, target := py_blend pybs\<rparr>"
  have res: "snd (construct_ecp_from_pydict base mol pybs fp) = Inr ?b"
    by (simp add: construct_unfold [OF assms] Let_def b)
  have "evaluate ?b sh r l = Some 0" if "sh \<in> set (shells ?b)" and "l \<noteq> gs_l sh" for sh l
  proof -
    from that(1) lab have "labelled_by_am (usubls ?b) sh"
      by (simp add: list_all_iff)
    from evaluate_other_label [OF this that(2)] show ?thesis .
  qed
  with res show "\<exists>b. snd (construct_ecp_from_pydict base mol pybs fp) = Inr b \<and>
            (\<forall>sh \<in> set (shells b). \<forall>l. l \<noteq> gs_l sh \<longrightarrow> evaluate b sh r l = Some 0)"
    by blast
qed

theorem construct_ecp_single_label_witness:
  "ecp_shell_map gold_ecp \<noteq> [] \<and>
   si_sub_l (read_shell example_base (1, [(3, 4, 1), (5, 6, 2)])) = [1, 1] \<and>
   (\<exists>b. snd (construct_ecp_from_pydict example_base gold_atom gold_ecp 0) = Inr b \<and>
      map (\<lambda>sh. (gs_l sh, gs_nprimitive sh)) (shells b) = [(0, 1), (1, 2)] \<and>
      list_all (\<lambda>sh. evaluate b sh 2 (gs_l sh + 1) = Some 0) (shells b))"
proof -
  have ne: "ecp_shell_map gold_ecp \<noteq> []"
    by (simp add: gold_ecp_def)
  have "(1, [(3, 4, 1), (5, 6, 2)]) \<in> set (atomshells (hd (ecp_shell_map gold_ecp)))"
    "hd (ecp_shell_map gold_ecp) \<in> set (ecp_shell_map gold_ecp)"
    by (simp_all add: gold_ecp_def)
  with construct_ecp_single_label [OF ne, of example_base gold_atom 0 2] ne
  obtain b where "si_sub_l (read_shell example_base (1, [(3, 4, 1), (5, 6, 2)])) = [1, 1]"
    and b: "snd (construct_ecp_from_pydict example_base gold_atom gold_ecp 0) = Inr b"
    and z: "list_all (\<lambda>sh. evaluate b sh 2 (gs_l sh + 1) = Some 0) (shells b)"
    by (fastforce simp: list_all_iff)
  with gold_basis_shells [OF b] ne show ?thesis
    by (intro conjI exI [of _ b])
qed

subsection \<open>The count check at work\<close>

lemma gold_on_basis_atom:
  "natom gold_on_basis = 1"
  "basisset (atom_entry gold_on_basis 0) ''BASIS'' = ''LANL2DZ''"
  "label (atom_entry gold_on_basis 0) = ''AU''"
  by (simp_all add: gold_on_basis_def gold_atom_def set_basis_all_atoms_def natom_def
      atom_entry_def basisset_def)

lemma gold_consumed:
  "primitives_consumed (ecp_shells example_base gold_ecp) ''LANL2DZ'' ''AU'' = 3"
  by (simp add: primitives_consumed_def gold_shells map_at2_def map_at_def read_shell_labels)

lemma repeated_key_counts:
  "primitives_consumed repeated_key_list ''LANL2DZ'' ''AU'' = 1"
  "primitive_range (store_unique_primitives repeated_key_list) ''LANL2DZ'' ''AU'' = 3"
proof -
  show "primitives_consumed repeated_key_list ''LANL2DZ'' ''AU'' = 1"
    by (simp add: primitives_consumed_def repeated_key_list_def map_at2_def map_at_def
        read_shell_labels)
  show "primitive_range (store_unique_primitives repeated_key_list) ''LANL2DZ'' ''AU'' = 3"
    by (simp add: primitive_range_def store_unique_primitives_def repeated_key_list_def
        store_basis_def store_label_def Let_def store_shell_fields map_at2_map_assign2
        read_shell_labels)
qed

theorem ECPBasisSet_ctor_count_check_witness:
  "shell_map_ok (ecp_shells example_base gold_ecp) \<and>
   primitives_consumed (ecp_shells example_base gold_ecp)
     (basisset (atom_entry gold_on_basis 0) ''BASIS'') (label (atom_entry gold_on_basis 0)) = 3 \<and>
   primitive_range (store_unique_primitives (ecp_shells example_base gold_ecp))
     (basisset (atom_entry gold_on_basis 0) ''BASIS'') (label (atom_entry gold_on_basis 0)) = 3 \<and>
   (\<exists>b. ECPBasisSet_ctor ''BASIS'' gold_on_basis (ecp_shells example_base gold_ecp) = Inr b \<and>
      map (\<lambda>sh. (gs_l sh, gs_nprimitive sh)) (shells b) = [(0, 1), (1, 2)]) \<and>
   count_mismatch ''BASIS'' gold_on_basis repeated_key_list 0 \<and>
   ECPBasisSet_ctor ''BASIS'' gold_on_basis repeated_key_list = Inl nprimitive_error"
proof -
  note check = ECPBasisSet_ctor_count_check
    [of gold_on_basis "''BASIS''" "ecp_shells example_base gold_ecp"]
  have ok: "shell_map_ok (ecp_shells example_base gold_ecp)"
    using ecp_shells_ok [of example_base gold_ecp] by simp
  with check have agree: "\<not> count_mismatch ''BASIS'' gold_on_basis
      (ecp_shells example_base gold_ecp) n" for n
    by simp
  from agree [of 0] have range: "primitive_range
      (store_unique_primitives (ecp_shells example_base gold_ecp)) ''LANL2DZ'' ''AU'' = 3"
    by (simp add: count_mismatch_def gold_on_basis_atom gold_consumed)
  from check agree obtain b
    where b: "ECPBasisSet_ctor ''BASIS'' gold_on_basis (ecp_shells example_base gold_ecp) = Inr b"
    by auto
  have shells: "map (\<lambda>sh. (gs_l sh, gs_nprimitive sh)) (shells b) = [(0, 1), (1, 2)]"
    unfolding ECPBasisSet_ctor_shells [OF b]
    by (simp add: gold_on_basis_atom gold_shells map_at2_def map_at_def read_shell_labels)
  have mismatch: "count_mismatch ''BASIS'' gold_on_basis repeated_key_list 0"
    by (simp add: count_mismatch_def gold_on_basis_atom repeated_key_counts)
  then have "\<exists>n < natom gold_on_basis. count_mismatch ''BASIS'' gold_on_basis repeated_key_list n"
    by (auto simp: gold_on_basis_atom)
  with ECPBasisSet_ctor_count_check [of gold_on_basis "''BASIS''" repeated_key_list]
  have thrown: "ECPBasisSet_ctor ''BASIS'' gold_on_basis repeated_key_list = Inl nprimitive_error"
    by simp
  from ok range b shells mismatch thrown show ?thesis
    by (simp add: gold_on_basis_atom gold_consumed)
qed

end
